theory Spec2Isabelle
  imports Main "HOL-Library.Word" "HOL-Library.Signed_Division"
begin

section \<open>The postfix calculator of \<open>polka.cpp\<close> and its sibling versions\<close>

text \<open>
  The repository holds several versions of one program: a compiler from postfix
  expressions to a tree of \<open>Statement\<close> objects, each with an \<open>apply\<close> method on an
  integer vector. All versions declare the same classes; they differ in a few method
  bodies. The development follows \<open>src/unnamed/part_002\<close> (with the header
  \<open>src/unnamed/part_001\<close>), the only version that both defines \<open>optimize\<close> and calls it
  from \<open>compile\<close>; the method bodies of \<open>src/unnamed/part_003\<close>, \<open>src/unnamed/part_004\<close>
  and \<open>src/polka.cpp\<close> that differ are embedded under the suffixes \<open>_p3\<close>, \<open>_p4\<close> and
  \<open>_polka\<close>.
\<close>

subsection \<open>Machine integers and the class hierarchy\<close>

text \<open>
  \<open>int\<close> and \<open>unsigned\<close> are 32 bits wide. A value of either type is a \<open>32 word\<close>;
  \<open>sint\<close> reads an \<open>int\<close>, \<open>unat\<close> an \<open>unsigned\<close>, and \<open>static_cast\<close> between the
  two keeps the bits.
\<close>

type_synonym cint = "32 word"
type_synonym cunsigned = "32 word"

text \<open>The template argument of \<open>BinaryOP<func>\<close>: one of the five function objects.\<close>

datatype func = std_plus | std_minus | std_divides | std_multiplies | std_modulus

text \<open>
  One constructor per subclass of \<open>Statement\<close>. A \<open>std::shared_ptr<Statement>\<close> that
  may be null is a \<open>Statement option\<close>; the children of a \<open>Combine\<close> are dereferenced
  by its constructor and are never null.
\<close>

datatype Statement =
    Combine Statement Statement
  | ConstOp cint
  | BinaryOP func
  | Abs
  | Input
  | Dup
  | BlankStr

text \<open>
  What a call can end in besides returning. \<open>EmptyVector\<close>: \<open>back()\<close> or \<open>pop_back()\<close>
  on an empty \<open>std::vector\<close> (undefined behaviour). \<open>ArithmeticTrap\<close>: an integer
  division whose divisor is zero or whose quotient is not representable (undefined
  behaviour; the division instruction of the host traps). \<open>InputFailure\<close>:
  \<open>std::cin >> value\<close> with no integer left to read. \<open>OutOfRange\<close>: the
  \<open>std::out_of_range\<close> exception of \<open>std::stoi\<close>.
\<close>

datatype fault = EmptyVector | ArithmeticTrap | InputFailure | OutOfRange

text \<open>
  A \<open>std::vector<int>\<close> is a list in index order: \<open>push_back v\<close> appends,
  \<open>back()\<close> is the last element. The integers still to be read from \<open>std::cin\<close>
  are a list as well; \<open>apply\<close> takes and returns both.
\<close>

type_synonym vec = "cint list"
type_synonym machine = "vec \<times> cint list"

subsection \<open>\<open>statement.h\<close> and the constructors of part_002\<close>

text \<open>
  Every constructor passes \<open>(arguments, results, pure)\<close> to \<open>Statement\<close>, which stores
  them; the getters return the stored values. \<open>Combine\<close> computes them with
  \<open>calculateArgumentsCount\<close>, \<open>calculateResultsCount\<close> and \<open>calculateIsPure\<close>:
  the difference is taken on \<open>int\<close>, \<open>std::max\<close> compares signed, and the sum with
  the \<open>unsigned\<close> count is unsigned.
\<close>

definition std_max_int :: "cint \<Rightarrow> cint \<Rightarrow> cint" where
  "std_max_int a b = (if a <s b then b else a)"

fun get_arguments_count :: "Statement \<Rightarrow> cunsigned"
  and get_results_count :: "Statement \<Rightarrow> cunsigned" where
  "get_arguments_count (Combine l r) =
     get_arguments_count l + std_max_int (get_arguments_count r - get_results_count l) 0"
| "get_arguments_count (ConstOp v) = 0"
| "get_arguments_count (BinaryOP f) = 2"
| "get_arguments_count Abs = 1"
| "get_arguments_count Input = 0"
| "get_arguments_count Dup = 1"
| "get_arguments_count BlankStr = 0"
| "get_results_count (Combine l r) =
     get_results_count r + std_max_int (get_results_count l - get_arguments_count r) 0"
| "get_results_count (ConstOp v) = 1"
| "get_results_count (BinaryOP f) = 1"
| "get_results_count Abs = 1"
| "get_results_count Input = 1"
| "get_results_count Dup = 2"
| "get_results_count BlankStr = 0"

fun is_pure :: "Statement \<Rightarrow> bool" where
  "is_pure (Combine l r) = (is_pure l \<and> is_pure r)"
| "is_pure (ConstOp v) = True"
| "is_pure (BinaryOP f) = True"
| "is_pure Abs = True"
| "is_pure Input = False"
| "is_pure Dup = True"
| "is_pure BlankStr = True"

subsection \<open>\<open>apply\<close> in part_002\<close>

text \<open>
  The function objects on \<open>int\<close>. Addition, subtraction and multiplication wrap
  (the overflow test of \<open>polka.cpp\<close> asserts it for \<open>+\<close>); \<open>/\<close> and \<open>%\<close> truncate
  towards zero and trap where C++ leaves them undefined.
\<close>

definition INT_MIN :: cint where
  "INT_MIN = word_of_int (- (2 ^ 31))"

fun call_func :: "func \<Rightarrow> cint \<Rightarrow> cint \<Rightarrow> fault + cint" where
  "call_func std_plus a b = Inr (a + b)"
| "call_func std_minus a b = Inr (a - b)"
| "call_func std_multiplies a b = Inr (a * b)"
| "call_func std_divides a b =
     (if b = 0 \<or> (a = INT_MIN \<and> b = - 1) then Inl ArithmeticTrap
      else Inr (word_of_int (sint a sdiv sint b)))"
| "call_func std_modulus a b =
     (if b = 0 \<or> (a = INT_MIN \<and> b = - 1) then Inl ArithmeticTrap
      else Inr (word_of_int (sint a smod sint b)))"

text \<open>\<open>std::abs\<close> on \<open>int\<close>: the negation of \<open>INT_MIN\<close> wraps to \<open>INT_MIN\<close>.\<close>

definition std_abs :: "cint \<Rightarrow> cint" where
  "std_abs b = (if b <s 0 then - b else b)"

definition ConstOp_apply :: "cint \<Rightarrow> vec \<Rightarrow> vec" where
  "ConstOp_apply v vin = vin @ [v]"

text \<open>
  \<open>BinaryOP::apply\<close> of part_002 reads \<open>b = in.back()\<close>, pops, reads \<open>a = in.back()\<close>,
  pops and pushes \<open>func(a, b)\<close>, with no check of the size.
\<close>

definition BinaryOP_apply :: "func \<Rightarrow> vec \<Rightarrow> fault + vec" where
  "BinaryOP_apply f vin =
     (if vin = [] then Inl EmptyVector
      else let b = last vin; in1 = butlast vin in
        if in1 = [] then Inl EmptyVector
        else let a = last in1; in2 = butlast in1 in
          (case call_func f a b of Inl e \<Rightarrow> Inl e | Inr c \<Rightarrow> Inr (in2 @ [c])))"

definition Abs_apply :: "vec \<Rightarrow> fault + vec" where
  "Abs_apply vin =
     (if vin = [] then Inl EmptyVector
      else let b = last vin; in1 = butlast vin in Inr (in1 @ [std_abs b]))"

definition Dup_apply :: "vec \<Rightarrow> fault + vec" where
  "Dup_apply vin =
     (if vin = [] then Inl EmptyVector
      else let a = last vin in Inr (vin @ [a]))"

definition Input_apply :: "machine \<Rightarrow> fault + machine" where
  "Input_apply m =
     (case snd m of [] \<Rightarrow> Inl InputFailure
      | val # rest \<Rightarrow> Inr (fst m @ [val], rest))"

text \<open>Running a vector method that does not read \<open>std::cin\<close>.\<close>

definition on_vec :: "(vec \<Rightarrow> fault + vec) \<Rightarrow> machine \<Rightarrow> fault + machine" where
  "on_vec f m = (case f (fst m) of Inl e \<Rightarrow> Inl e | Inr out \<Rightarrow> Inr (out, snd m))"

text \<open>
  The virtual call \<open>stmt->apply(in)\<close>. \<open>Combine::apply\<close> is
  \<open>r->apply(l->apply(in))\<close>; a fault in \<open>l\<close> ends the call.
\<close>

fun apply_stmt :: "Statement \<Rightarrow> machine \<Rightarrow> fault + machine" where
  "apply_stmt (Combine l r) m =
     (case apply_stmt l m of Inl e \<Rightarrow> Inl e | Inr m1 \<Rightarrow> apply_stmt r m1)"
| "apply_stmt (ConstOp v) m = Inr (ConstOp_apply v (fst m), snd m)"
| "apply_stmt (BinaryOP f) m = on_vec (BinaryOP_apply f) m"
| "apply_stmt Abs m = on_vec Abs_apply m"
| "apply_stmt Input m = Input_apply m"
| "apply_stmt Dup m = on_vec Dup_apply m"
| "apply_stmt BlankStr m = Inr m"

subsection \<open>\<open>optimize\<close> in part_002\<close>

text \<open>
  Only a \<open>Combine\<close> is rewritten (\<open>dynamic_cast<Combine*>\<close>); every other statement
  is returned as it is. Both children are optimized first. When the optimized right
  child takes more arguments than the optimized left child has results, the function
  returns \<open>stmt\<close>, the node it was given. Otherwise two \<open>ConstOp\<close> children are
  replaced by one \<open>ConstOp\<close> holding \<open>input.back()\<close>, where \<open>input\<close> is the empty
  vector after both constants were applied to it.
\<close>

fun optimize :: "Statement \<Rightarrow> Statement" where
  "optimize (Combine l r) =
     (let left_optimized = optimize l; right_optimized = optimize r in
      if get_results_count left_optimized < get_arguments_count right_optimized
      then Combine l r
      else (case left_optimized of
              ConstOp a \<Rightarrow>
                (case right_optimized of
                   ConstOp b \<Rightarrow> ConstOp (last (ConstOp_apply b (ConstOp_apply a [])))
                 | _ \<Rightarrow> Combine left_optimized right_optimized)
            | _ \<Rightarrow> Combine left_optimized right_optimized))"
| "optimize stmt = stmt"

text \<open>
  On a null pointer \<open>dynamic_cast\<close> gives null and \<open>optimize\<close> returns the null
  pointer it was given.
\<close>

definition optimize_ptr :: "Statement option \<Rightarrow> Statement option" where
  "optimize_ptr stmt = (case stmt of None \<Rightarrow> None | Some s \<Rightarrow> Some (optimize s))"

subsection \<open>\<open>optimize\<close> in \<open>polka.cpp\<close>\<close>

text \<open>
  The second version in \<open>polka.cpp\<close> has no comparison of the counts and folds two
  \<open>ConstOp\<close> children into the sum of their values:
  \<open>left_const->apply({})[0] + right_const->apply({})[0]\<close>. Its classes are those of
  part_002.
\<close>

fun optimize_polka :: "Statement \<Rightarrow> Statement" where
  "optimize_polka (Combine l r) =
     (let left_optimized = optimize_polka l; right_optimized = optimize_polka r in
      case left_optimized of
        ConstOp a \<Rightarrow>
          (case right_optimized of
             ConstOp b \<Rightarrow> ConstOp (ConstOp_apply a [] ! 0 + ConstOp_apply b [] ! 0)
           | _ \<Rightarrow> Combine left_optimized right_optimized)
      | _ \<Rightarrow> Combine left_optimized right_optimized)"
| "optimize_polka stmt = stmt"

subsection \<open>\<open>compile\<close> in part_002\<close>

text \<open>
  The character classes of the two regular expressions, in the "C" locale:
  \<open>\s\<close> is space, tab, line feed, vertical tab, form feed and carriage return;
  \<open>\d\<close> is \<open>0\<close> to \<open>9\<close>.
\<close>

definition isspace :: "char \<Rightarrow> bool" where
  "isspace c = (c = CHR '' '' \<or> c = CHR 0x09 \<or> c = CHR 0x0A \<or> c = CHR 0x0B
                \<or> c = CHR 0x0C \<or> c = CHR 0x0D)"

definition isdigit :: "char \<Rightarrow> bool" where
  "isdigit c = (48 \<le> (of_char c :: nat) \<and> (of_char c :: nat) \<le> 57)"

text \<open>
  The \<open>std::regex_iterator\<close> over \<open>\S+\<close>: the maximal runs of characters that are not
  white space, in order. \<open>tok\<close> is the run being read.
\<close>

fun regex_tokens :: "string \<Rightarrow> string \<Rightarrow> string list" where
  "regex_tokens tok [] = (if tok = [] then [] else [tok])"
| "regex_tokens tok (c # cs) =
     (if isspace c then (if tok = [] then regex_tokens [] cs else tok # regex_tokens [] cs)
      else regex_tokens (tok @ [c]) cs)"

text \<open>\<open>std::regex_match(token, number_regex)\<close> with \<open>[-+]?\d+\<close>: the whole token.\<close>

definition number_regex_match :: "string \<Rightarrow> bool" where
  "number_regex_match token =
     (let digits = (case token of [] \<Rightarrow> []
                    | c # cs \<Rightarrow> if c = CHR ''-'' \<or> c = CHR ''+'' then cs else token)
      in digits \<noteq> [] \<and> list_all isdigit digits)"

text \<open>
  \<open>std::stoi\<close> on a token: an optional sign, then decimal digits up to the first
  character that is none. It throws \<open>std::out_of_range\<close> when the number is not an
  \<open>int\<close>.
\<close>

definition digit_value :: "char \<Rightarrow> int" where
  "digit_value c = int (of_char c) - 48"

definition decimal :: "string \<Rightarrow> int" where
  "decimal ds = foldl (\<lambda>n c. n * 10 + digit_value c) 0 (takeWhile isdigit ds)"

definition stoi_value :: "string \<Rightarrow> int" where
  "stoi_value token =
     (case token of [] \<Rightarrow> 0
      | c # cs \<Rightarrow> if c = CHR ''-'' then - decimal cs
                 else if c = CHR ''+'' then decimal cs else decimal token)"

definition stoi :: "string \<Rightarrow> fault + cint" where
  "stoi token =
     (let n = stoi_value token in
      if - (2 ^ 31) \<le> n \<and> n < 2 ^ 31 then Inr (word_of_int n) else Inl OutOfRange)"

text \<open>
  The table of operators, with the same eight entries in every version: the
  \<open>std::unordered_map\<close> \<open>operator_mapping\<close> of part_002, where \<open>find\<close> is a lookup
  of the whole token, and the \<open>std::array\<close> \<open>operator_mappings\<close> of part_003 and
  part_004.
\<close>

definition operator_mappings :: "(string \<times> Statement) list" where
  "operator_mappings =
     [(''+'', BinaryOP std_plus),
      (''-'', BinaryOP std_minus),
      (''/'', BinaryOP std_divides),
      (''*'', BinaryOP std_multiplies),
      (''%'', BinaryOP std_modulus),
      (''abs'', Abs),
      (''input'', Input),
      (''dup'', Dup)]"

definition operator_mapping :: "string \<Rightarrow> Statement option" where
  "operator_mapping token = map_of operator_mappings token"

text \<open>\<open>ret = !ret ? stmt : (ret | stmt)\<close>, where \<open>operator|\<close> makes a \<open>Combine\<close>.\<close>

definition append_stmt :: "Statement option \<Rightarrow> Statement \<Rightarrow> Statement option" where
  "append_stmt ret stmt = (case ret of None \<Rightarrow> Some stmt | Some acc \<Rightarrow> Some (Combine acc stmt))"

text \<open>
  The loop over the tokens. A token that is neither a number nor a key of the table
  changes nothing; an exception of \<open>std::stoi\<close> leaves the function.
\<close>

fun compile_loop :: "Statement option \<Rightarrow> string list \<Rightarrow> fault + Statement option" where
  "compile_loop ret [] = Inr ret"
| "compile_loop ret (token # rest) =
     (if number_regex_match token then
        (case stoi token of
           Inl e \<Rightarrow> Inl e
         | Inr v \<Rightarrow> compile_loop (append_stmt ret (ConstOp v)) rest)
      else
        (case operator_mapping token of
           Some op_stmt \<Rightarrow> compile_loop (append_stmt ret op_stmt) rest
         | None \<Rightarrow> compile_loop ret rest))"

text \<open>
  \<open>compile\<close> returns a \<open>BlankStr\<close> for a string that is empty or holds only the
  character \<open>' '\<close> (\<open>find_first_not_of(" ")\<close>), and \<open>optimize(ret)\<close> otherwise.
\<close>

definition compile :: "string \<Rightarrow> fault + Statement option" where
  "compile str =
     (if str = [] \<or> list_all (\<lambda>c. c = CHR '' '') str then Inr (Some BlankStr)
      else (case compile_loop None (regex_tokens [] str) of
              Inl e \<Rightarrow> Inl e
            | Inr ret \<Rightarrow> Inr (optimize_ptr ret)))"

subsection \<open>The versions part_003 and part_004\<close>

text \<open>
  part_003 declares \<open>Abs() : Statement(0, 1, true)\<close> and
  \<open>Input() : Statement(0, 1, true)\<close>; the other leaf classes pass the values of
  part_002. Its \<open>Combine\<close> constructor reads the four counts into \<open>int\<close> variables and
  stores \<open>std::max(l_args, r_args - l_results)\<close> and
  \<open>l_results + r_results - std::min(l_results, r_args)\<close>.
\<close>

definition std_min_int :: "cint \<Rightarrow> cint \<Rightarrow> cint" where
  "std_min_int a b = (if b <s a then b else a)"

fun get_arguments_count_p3 :: "Statement \<Rightarrow> cunsigned"
  and get_results_count_p3 :: "Statement \<Rightarrow> cunsigned" where
  "get_arguments_count_p3 (Combine l r) =
     std_max_int (get_arguments_count_p3 l) (get_arguments_count_p3 r - get_results_count_p3 l)"
| "get_arguments_count_p3 (ConstOp v) = 0"
| "get_arguments_count_p3 (BinaryOP f) = 2"
| "get_arguments_count_p3 Abs = 0"
| "get_arguments_count_p3 Input = 0"
| "get_arguments_count_p3 Dup = 1"
| "get_arguments_count_p3 BlankStr = 0"
| "get_results_count_p3 (Combine l r) =
     get_results_count_p3 l + get_results_count_p3 r
       - std_min_int (get_results_count_p3 l) (get_arguments_count_p3 r)"
| "get_results_count_p3 (ConstOp v) = 1"
| "get_results_count_p3 (BinaryOP f) = 1"
| "get_results_count_p3 Abs = 1"
| "get_results_count_p3 Input = 1"
| "get_results_count_p3 Dup = 2"
| "get_results_count_p3 BlankStr = 0"

fun is_pure_p3 :: "Statement \<Rightarrow> bool" where
  "is_pure_p3 (Combine l r) = (is_pure_p3 l \<and> is_pure_p3 r)"
| "is_pure_p3 (ConstOp v) = True"
| "is_pure_p3 (BinaryOP f) = True"
| "is_pure_p3 Abs = True"
| "is_pure_p3 Input = True"
| "is_pure_p3 Dup = True"
| "is_pure_p3 BlankStr = True"

text \<open>
  \<open>BinaryOP::apply\<close> of part_003 starts with \<open>if (v.size() < 2) return v;\<close>.
  \<open>Abs::apply\<close> and \<open>Dup::apply\<close> are those of part_002. \<open>Combine::apply\<close> applies
  \<open>l\<close>, then \<open>r\<close>, each under a test that the pointer is not null.
\<close>

definition BinaryOP_apply_p3 :: "func \<Rightarrow> vec \<Rightarrow> fault + vec" where
  "BinaryOP_apply_p3 f v = (if length v < 2 then Inr v else BinaryOP_apply f v)"

fun apply_stmt_p3 :: "Statement \<Rightarrow> machine \<Rightarrow> fault + machine" where
  "apply_stmt_p3 (Combine l r) m =
     (case apply_stmt_p3 l m of Inl e \<Rightarrow> Inl e | Inr m1 \<Rightarrow> apply_stmt_p3 r m1)"
| "apply_stmt_p3 (ConstOp v) m = Inr (ConstOp_apply v (fst m), snd m)"
| "apply_stmt_p3 (BinaryOP f) m = on_vec (BinaryOP_apply_p3 f) m"
| "apply_stmt_p3 Abs m = on_vec Abs_apply m"
| "apply_stmt_p3 Input m = Input_apply m"
| "apply_stmt_p3 Dup m = on_vec Dup_apply m"
| "apply_stmt_p3 BlankStr m = Inr m"

text \<open>
  In part_004 \<open>Combine::apply\<close> is \<open>return l->apply(r->apply(v));\<close>: the right child
  runs first. Its leaf classes have the \<open>apply\<close> bodies of part_002. part_004 declares
  no \<open>BlankStr\<close>; the last equation is that of the other versions and is not reached
  from a statement part_004 can build.
\<close>

fun apply_stmt_p4 :: "Statement \<Rightarrow> machine \<Rightarrow> fault + machine" where
  "apply_stmt_p4 (Combine l r) m =
     (case apply_stmt_p4 r m of Inl e \<Rightarrow> Inl e | Inr m1 \<Rightarrow> apply_stmt_p4 l m1)"
| "apply_stmt_p4 (ConstOp v) m = Inr (ConstOp_apply v (fst m), snd m)"
| "apply_stmt_p4 (BinaryOP f) m = on_vec (BinaryOP_apply f) m"
| "apply_stmt_p4 Abs m = on_vec Abs_apply m"
| "apply_stmt_p4 Input m = Input_apply m"
| "apply_stmt_p4 Dup m = on_vec Dup_apply m"
| "apply_stmt_p4 BlankStr m = Inr m"

text \<open>
  The \<open>Combine\<close> constructor of part_004 keeps the counts in \<open>unsigned\<close> variables:
  \<open>r_args - l_results\<close> wraps and \<open>std::max\<close> compares unsigned.
\<close>

definition Combine_arguments_p4 :: "cunsigned \<Rightarrow> cunsigned \<Rightarrow> cunsigned \<Rightarrow> cunsigned" where
  "Combine_arguments_p4 l_args l_results r_args =
     (if l_args < r_args - l_results then r_args - l_results else l_args)"

subsection \<open>\<open>compile\<close> in part_003 and part_004\<close>

text \<open>
  Both versions scan the \<open>std::string_view\<close> by hand and try the entries of the array
  \<open>operator_mappings\<close> in order. Their \<open>while (!str.empty())\<close> loop has an iteration
  that removes nothing from \<open>str\<close>, so the loop is a partial function: \<open>None\<close> is a
  call that does not return. The digit loop computes \<open>number * 10 + (*i - '0')\<close> on
  \<open>int\<close>.
\<close>

definition starts_with :: "string \<Rightarrow> string \<Rightarrow> bool" where
  "starts_with str p = (take (length p) str = p)"

definition consume_space :: "string \<Rightarrow> string" where
  "consume_space str = dropWhile (\<lambda>x. x = CHR '' '') str"

definition scan_digits :: "string \<Rightarrow> cint \<times> nat" where
  "scan_digits str =
     (let ds = takeWhile isdigit str
      in (foldl (\<lambda>number c. number * 10 + word_of_int (digit_value c)) 0 ds, length ds))"

text \<open>
  \<open>parse_num\<close> of part_003: a \<open>'-'\<close> is taken as a sign when a digit follows; the
  result is \<open>std::nullopt\<close> when no digit was read.
\<close>

definition parse_num :: "string \<Rightarrow> (cint \<times> string) option" where
  "parse_num str =
     (let is_negative = (str \<noteq> [] \<and> hd str = CHR ''-'' \<and> 1 < length str \<and> isdigit (str ! 1));
          str1 = (if is_negative then drop 1 str else str);
          (number, len) = scan_digits str1
      in if 0 < len then Some (if is_negative then - number else number, drop len str1)
         else None)"

text \<open>
  The \<open>for\<close> loop of part_003 over the table: the first entry whose token is a prefix
  of \<open>str\<close> is removed from it, with the spaces that follow.
\<close>

fun find_operator_p3 :: "(string \<times> Statement) list \<Rightarrow> string \<Rightarrow> (Statement \<times> string) option" where
  "find_operator_p3 [] str = None"
| "find_operator_p3 ((token, create) # mappings) str =
     (if starts_with str token then Some (create, consume_space (drop (length token) str))
      else find_operator_p3 mappings str)"

partial_function (option) compile_loop_p3 ::
  "Statement option \<Rightarrow> string \<Rightarrow> Statement option option" where
  "compile_loop_p3 ret str =
     (if str = [] then Some ret
      else let str1 = consume_space str in
        if str1 = [] then Some ret
        else (case parse_num str1 of
                Some (number, str2) \<Rightarrow> compile_loop_p3 (append_stmt ret (ConstOp number)) str2
              | None \<Rightarrow>
                  (case find_operator_p3 operator_mappings str1 of
                     Some (stmt, str2) \<Rightarrow> compile_loop_p3 (append_stmt ret stmt) str2
                   | None \<Rightarrow> compile_loop_p3 ret str1)))"

declare compile_loop_p3.simps [code]

definition compile_p3 :: "string \<Rightarrow> Statement option option" where
  "compile_p3 str = (if str = [] then Some (Some BlankStr) else compile_loop_p3 None str)"

text \<open>
  \<open>consume_token\<close> of part_004 takes a token that is the whole rest of the string or
  is followed by a space. When no entry is taken, the digit loop runs and a
  \<open>ConstOp(number)\<close> is appended even if \<open>len\<close> is 0. part_004 has no test for the
  empty string.
\<close>

fun consume_token_p4 :: "(string \<times> Statement) list \<Rightarrow> string \<Rightarrow> (Statement \<times> string) option" where
  "consume_token_p4 [] str = None"
| "consume_token_p4 ((p, create) # mappings) str =
     (if str = p then Some (create, [])
      else if starts_with str p \<and> str ! length p = CHR '' ''
        then Some (create, drop (length p + 1) str)
      else consume_token_p4 mappings str)"

partial_function (option) compile_loop_p4 ::
  "Statement option \<Rightarrow> string \<Rightarrow> Statement option option" where
  "compile_loop_p4 ret str =
     (if str = [] then Some ret
      else if hd str = CHR '' '' then compile_loop_p4 ret (consume_space str)
      else (case consume_token_p4 operator_mappings str of
              Some (stmt, str1) \<Rightarrow> compile_loop_p4 (append_stmt ret stmt) str1
            | None \<Rightarrow>
                (let (number, len) = scan_digits str
                 in compile_loop_p4 (append_stmt ret (ConstOp number)) (drop len str))))"

declare compile_loop_p4.simps [code]

definition compile_p4 :: "string \<Rightarrow> Statement option option" where
  "compile_p4 str = compile_loop_p4 None str"

subsection \<open>Notions used in the statements\<close>

text \<open>A statement that is not a \<open>Combine\<close>.\<close>

fun is_Combine :: "Statement \<Rightarrow> bool" where
  "is_Combine (Combine l r) = True"
| "is_Combine stmt = False"

text \<open>
  The counts of a tree stay below \<open>2 ^ 31\<close> at every \<open>Combine\<close>, so that neither the
  casts to \<open>int\<close> nor the unsigned sum in the constructor wrap.
\<close>

fun counts_fit :: "Statement \<Rightarrow> bool" where
  "counts_fit (Combine l r) =
     (counts_fit l \<and> counts_fit r \<and>
      unat (get_arguments_count l) + unat (get_arguments_count r) < 2 ^ 31 \<and>
      unat (get_results_count l) + unat (get_results_count r) < 2 ^ 31)"
| "counts_fit stmt = True"

text \<open>
  The formula of the specification for the arguments of a sequence:
  \<open>max(l.arguments, r.arguments - l.results)\<close>, on the integers.
\<close>

definition spec_sequence_arguments :: "Statement \<Rightarrow> Statement \<Rightarrow> int" where
  "spec_sequence_arguments l r =
     max (uint (get_arguments_count l)) (uint (get_arguments_count r) - uint (get_results_count l))"

text \<open>
  A token is a fitting literal when \<open>std::stoi\<close> is not called on it or its number is
  an \<open>int\<close>; it is recognized when it is a number or a key of the table.
\<close>

definition literal_fits :: "string \<Rightarrow> bool" where
  "literal_fits token =
     (number_regex_match token \<longrightarrow>
        - (2 ^ 31) \<le> stoi_value token \<and> stoi_value token < 2 ^ 31)"

definition recognized :: "string \<Rightarrow> bool" where
  "recognized token = (number_regex_match token \<or> operator_mapping token \<noteq> None)"

text \<open>
  The exact result of an operation on the integers (quotient and remainder truncated
  towards zero), and the reduction of an integer modulo \<open>2 ^ 32\<close> into the range of
  \<open>int\<close>.
\<close>

fun exact :: "func \<Rightarrow> int \<Rightarrow> int \<Rightarrow> int" where
  "exact std_plus x y = x + y"
| "exact std_minus x y = x - y"
| "exact std_multiplies x y = x * y"
| "exact std_divides x y = x sdiv y"
| "exact std_modulus x y = x smod y"

definition wrap32 :: "int \<Rightarrow> int" where
  "wrap32 n = (n + 2 ^ 31) mod 2 ^ 32 - 2 ^ 31"

text \<open>The operands on which \<open>/\<close> and \<open>%\<close> are undefined in C++.\<close>

definition undefined_division :: "func \<Rightarrow> cint \<Rightarrow> cint \<Rightarrow> bool" where
  "undefined_division f a b =
     ((f = std_divides \<or> f = std_modulus) \<and> (b = 0 \<or> (a = INT_MIN \<and> b = - 1)))"

text \<open>
  Compiling a text with part_002 and applying the statement to a vector, with nothing
  on \<open>std::cin\<close>; the integers of the result are read as \<open>int\<close>.
\<close>

definition run :: "string \<Rightarrow> cint list \<Rightarrow> (fault + int list) option" where
  "run str vin =
     (case compile str of
        Inr (Some stmt) \<Rightarrow> Some (map_sum id (map sint \<circ> fst) (apply_stmt stmt (vin, [])))
      | _ \<Rightarrow> None)"

text \<open>
  What the counts of a statement say about a vector of a given length: below
  \<open>arguments\<close> the call ends in a fault; from \<open>arguments\<close> on it never reads an empty
  vector, and a vector it returns is \<open>results - arguments\<close> longer.
\<close>

definition depth_ok :: "Statement \<Rightarrow> vec \<Rightarrow> cint list \<Rightarrow> bool" where
  "depth_ok stmt vin cin =
     ((length vin < unat (get_arguments_count stmt) \<longrightarrow>
         (\<exists>e. apply_stmt stmt (vin, cin) = Inl e)) \<and>
      (unat (get_arguments_count stmt) \<le> length vin \<longrightarrow>
         apply_stmt stmt (vin, cin) \<noteq> Inl EmptyVector \<and>
         (\<forall>out cin'. apply_stmt stmt (vin, cin) = Inr (out, cin') \<longrightarrow>
            length out + unat (get_arguments_count stmt) =
            length vin + unat (get_results_count stmt))))"

section \<open>Lemmas\<close>

subsection \<open>Signed and unsigned readings of a word\<close>


lemma sint_as_uint:
  fixes w :: "32 word"
  shows "sint w = (if uint w < 2 ^ 31 then uint w else uint w - 2 ^ 32)"
proof -
  have s: "sint w = (uint w + 2 ^ 31) mod 2 ^ 32 - 2 ^ 31"
    by (simp add: sint_uint signed_take_bit_eq_take_bit_shift take_bit_eq_mod)
  have lo: "0 \<le> uint w" by simp
  have hi: "uint w < 2 ^ 32" using uint_lt2p [of w] by simp
  show ?thesis
  proof (cases "uint w < 2 ^ 31")
    case True
    with lo have "(uint w + 2 ^ 31) mod 2 ^ 32 = uint w + 2 ^ 31"
      by (intro mod_pos_pos_trivial) simp_all
    with s True show ?thesis by simp
  next
    case False
    have "(uint w + 2 ^ 31) mod 2 ^ 32 = (uint w + 2 ^ 31 - 2 ^ 32) mod 2 ^ 32"
      by (rule minus_mod_self2 [symmetric])
    also from False hi have "\<dots> = uint w + 2 ^ 31 - 2 ^ 32"
      by (intro mod_pos_pos_trivial) simp_all
    finally show ?thesis using s False by simp
  qed
qed


lemma sint_as_unat:
  fixes w :: "32 word"
  shows "sint w = (if unat w < 2 ^ 31 then int (unat w) else int (unat w) - 2 ^ 32)"
proof -
  have "uint w = int (unat w)" by (rule uint_nat)
  moreover have "(uint w < 2 ^ 31) = (unat w < 2 ^ 31)"
    unfolding uint_nat by (simp only: of_nat_less_numeral_power_cancel_iff)
  ultimately show ?thesis using sint_as_uint [of w] by (simp only:)
qed

lemma std_max_int_diff:
  fixes x y :: cint
  assumes "unat x < 2 ^ 31" and "unat y < 2 ^ 31"
  shows "unat (std_max_int (x - y) 0) = unat x - unat y"
proof (cases "unat y \<le> unat x")
  case True
  then have u: "unat (x - y) = unat x - unat y"
    by (simp only: unat_sub_if' if_True)
  with assms have "unat (x - y) < 2 ^ 31" by linarith
  then have "sint (x - y) = int (unat (x - y))" by (simp only: sint_as_unat if_True)
  then have "\<not> sint (x - y) < 0" by linarith
  then have "\<not> (x - y <s 0)" by (simp add: word_sless_alt)
  then have "std_max_int (x - y) 0 = x - y" by (simp only: std_max_int_def if_False)
  with u show ?thesis by (simp only:)
next
  case False
  have "unat (x - y) = unat x + 2 ^ LENGTH(32) - unat y"
    using False by (simp only: unat_sub_if' if_False)
  then have u: "unat (x - y) = unat x + 2 ^ 32 - unat y" by simp
  have p: "(2::nat) ^ 32 = 2 * 2 ^ 31" by simp
  from u False assms have big: "\<not> unat (x - y) < 2 ^ 31" unfolding p by linarith
  have "unat (x - y) < 2 ^ 32" using unsigned_less [of "x - y", where ?'a = nat] by simp
  then have "int (unat (x - y)) < 2 ^ 32"
    by (simp only: of_nat_less_numeral_power_cancel_iff)
  moreover have "sint (x - y) = int (unat (x - y)) - 2 ^ 32"
    using big by (simp only: sint_as_unat if_False)
  ultimately have "sint (x - y) < 0" by linarith
  then have "x - y <s 0" by (simp add: word_sless_alt)
  then have "std_max_int (x - y) 0 = 0" by (simp only: std_max_int_def if_True)
  with False show ?thesis by simp
qed


lemma sint_diff_small:
  fixes x y :: cint
  assumes "unat x < 2 ^ 31" and "unat y < 2 ^ 31"
  shows "sint (x - y) = int (unat x) - int (unat y)"
proof -
  have x: "sint x = int (unat x)" using assms(1) by (simp only: sint_as_unat if_True)
  have y: "sint y = int (unat y)" using assms(2) by (simp only: sint_as_unat if_True)
  have xi: "int (unat x) < 2 ^ 31"
    using assms(1) by (simp only: of_nat_less_numeral_power_cancel_iff)
  have yi: "int (unat y) < 2 ^ 31"
    using assms(2) by (simp only: of_nat_less_numeral_power_cancel_iff)
  have lo: "- (2 ^ 31) \<le> int (unat x) - int (unat y)" using yi by linarith
  have hi: "int (unat x) - int (unat y) < 2 ^ 31" using xi by linarith
  have "sint (x - y) = signed_take_bit 31 (sint x - sint y)"
    by (simp add: sint_word_ariths)
  also have "\<dots> = sint x - sint y"
    unfolding x y using lo hi by (rule signed_take_bit_int_eq_self)
  finally show ?thesis unfolding x y .
qed

lemma unat_plus_max_diff:
  fixes a x y :: cunsigned
  assumes "unat a + unat x < 2 ^ 31" and "unat y < 2 ^ 31"
  shows "unat (a + std_max_int (x - y) 0) = unat a + (unat x - unat y)"
proof -
  from assms have "unat x < 2 ^ 31" by linarith
  from this assms(2) have d: "unat (std_max_int (x - y) 0) = unat x - unat y"
    by (rule std_max_int_diff)
  have p: "(2::nat) ^ 32 = 2 * 2 ^ 31" by simp
  from assms(1) have "unat a + unat (std_max_int (x - y) 0) < 2 ^ 32"
    unfolding d p by linarith
  then have "unat a + unat (std_max_int (x - y) 0) < 2 ^ LENGTH(32)" by simp
  then have "unat (a + std_max_int (x - y) 0) = unat a + unat (std_max_int (x - y) 0)"
    by (simp only: unat_add_lem)
  with d show ?thesis by (simp only:)
qed

lemma Combine_counts:
  assumes "counts_fit (Combine l r)"
  shows "unat (get_arguments_count (Combine l r)) =
           unat (get_arguments_count l) + (unat (get_arguments_count r) - unat (get_results_count l))"
    and "unat (get_results_count (Combine l r)) =
           unat (get_results_count r) + (unat (get_results_count l) - unat (get_arguments_count r))"
proof -
  from assms have a: "unat (get_arguments_count l) + unat (get_arguments_count r) < 2 ^ 31"
    and b: "unat (get_results_count l) + unat (get_results_count r) < 2 ^ 31" by simp_all
  from b have "unat (get_results_count l) < 2 ^ 31" by linarith
  with a show "unat (get_arguments_count (Combine l r)) =
           unat (get_arguments_count l) + (unat (get_arguments_count r) - unat (get_results_count l))"
    by (simp only: get_arguments_count.simps unat_plus_max_diff)
  from a have "unat (get_arguments_count r) < 2 ^ 31" by linarith
  moreover from b have "unat (get_results_count r) + unat (get_results_count l) < 2 ^ 31"
    by linarith
  ultimately show "unat (get_results_count (Combine l r)) =
           unat (get_results_count r) + (unat (get_results_count l) - unat (get_arguments_count r))"
    by (simp only: get_results_count.simps unat_plus_max_diff)
qed


lemma BinaryOP_apply_two:
  "BinaryOP_apply f (pre @ [a, b]) =
     (case call_func f a b of Inl e \<Rightarrow> Inl e | Inr c \<Rightarrow> Inr (pre @ [c]))"
  by (simp add: BinaryOP_apply_def Let_def butlast_append)

lemma call_func_fault: "call_func f a b = Inl e \<Longrightarrow> e = ArithmeticTrap"
  by (cases f) (auto split: if_splits)

lemma two_or_more:
  assumes "2 \<le> length (xs :: 'a list)"
  obtains pre a b where "xs = pre @ [a, b]"
proof -
  from assms obtain ys b where 1: "xs = ys @ [b]"
    by (cases xs rule: rev_cases) auto
  with assms obtain pre a where 2: "ys = pre @ [a]"
    by (cases ys rule: rev_cases) auto
  from 1 2 that show thesis by simp
qed

lemma BinaryOP_apply_short:
  "length vin < 2 \<Longrightarrow> BinaryOP_apply f vin = Inl EmptyVector"
proof (cases vin rule: rev_cases)
  case Nil
  then show ?thesis by (simp add: BinaryOP_apply_def)
next
  case (snoc ys b)
  assume "length vin < 2"
  with snoc have "ys = []" by simp
  with snoc show ?thesis by (simp add: BinaryOP_apply_def)
qed

lemma depth_BinaryOP: "depth_ok (BinaryOP f) vin cin"
proof (cases "length vin < 2")
  case True
  then show ?thesis by (simp add: depth_ok_def on_vec_def BinaryOP_apply_short)
next
  case False
  then have "2 \<le> length vin" by simp
  then obtain pre a b where vin: "vin = pre @ [a, b]" by (rule two_or_more)
  show ?thesis
  proof (cases "call_func f a b")
    case (Inl e)
    then have "e = ArithmeticTrap" by (rule call_func_fault)
    with Inl vin show ?thesis
      by (simp add: depth_ok_def on_vec_def BinaryOP_apply_two)
  next
    case (Inr c)
    with vin show ?thesis
      by (simp add: depth_ok_def on_vec_def BinaryOP_apply_two)
  qed
qed

lemma depth_Abs: "depth_ok Abs vin cin"
  by (cases vin rule: rev_cases) (simp_all add: depth_ok_def on_vec_def Abs_apply_def)

lemma depth_Dup: "depth_ok Dup vin cin"
  by (cases vin rule: rev_cases) (simp_all add: depth_ok_def on_vec_def Dup_apply_def)

lemma depth_Input: "depth_ok Input vin cin"
  by (cases cin) (simp_all add: depth_ok_def Input_apply_def)

lemma depth_Combine:
  assumes fit: "counts_fit (Combine l r)"
    and l: "\<And>vin cin. depth_ok l vin cin"
    and r: "\<And>vin cin. depth_ok r vin cin"
  shows "depth_ok (Combine l r) vin cin"
proof -
  let ?la = "unat (get_arguments_count l)" and ?lr = "unat (get_results_count l)"
  let ?ra = "unat (get_arguments_count r)" and ?rr = "unat (get_results_count r)"
  have A: "unat (get_arguments_count (Combine l r)) = ?la + (?ra - ?lr)"
    and R: "unat (get_results_count (Combine l r)) = ?rr + (?lr - ?ra)"
    using fit by (rule Combine_counts)+
  show ?thesis
  proof (cases "apply_stmt l (vin, cin)")
    case (Inl e)
    have "e \<noteq> EmptyVector" if "?la + (?ra - ?lr) \<le> length vin"
    proof -
      from that have "?la \<le> length vin" by linarith
      with l [of vin cin] Inl show ?thesis by (simp add: depth_ok_def)
    qed
    with Inl show ?thesis unfolding depth_ok_def A R by auto
  next
    case (Inr m1)
    obtain v1 c1 where m1: "m1 = (v1, c1)" by (cases m1)
    from l [of vin cin] Inr have la: "?la \<le> length vin"
      unfolding depth_ok_def by (cases "length vin < ?la") auto
    with l [of vin cin] Inr m1 have len1: "length v1 + ?la = length vin + ?lr"
      unfolding depth_ok_def by simp
    have step: "apply_stmt (Combine l r) (vin, cin) = apply_stmt r (v1, c1)"
      using Inr m1 by simp
    have short: "\<exists>e. apply_stmt r (v1, c1) = Inl e" if "length vin < ?la + (?ra - ?lr)"
    proof -
      from that la len1 have "length v1 < ?ra" by linarith
      with r [of v1 c1] show ?thesis by (simp add: depth_ok_def)
    qed
    have long: "apply_stmt r (v1, c1) \<noteq> Inl EmptyVector \<and>
        (\<forall>out cin'. apply_stmt r (v1, c1) = Inr (out, cin') \<longrightarrow>
           length out + (?la + (?ra - ?lr)) = length vin + (?rr + (?lr - ?ra)))"
      if "?la + (?ra - ?lr) \<le> length vin"
    proof -
      from that len1 have ra: "?ra \<le> length v1" by linarith
      with r [of v1 c1] have ne: "apply_stmt r (v1, c1) \<noteq> Inl EmptyVector"
        and eq: "\<And>out cin'. apply_stmt r (v1, c1) = Inr (out, cin') \<Longrightarrow>
                   length out + ?ra = length v1 + ?rr"
        by (simp_all add: depth_ok_def)
      have "length out + (?la + (?ra - ?lr)) = length vin + (?rr + (?lr - ?ra))"
        if "apply_stmt r (v1, c1) = Inr (out, cin')" for out cin'
        using eq [OF that] len1 ra by linarith
      with ne show ?thesis by blast
    qed
    from short long show ?thesis unfolding depth_ok_def A R step by blast
  qed
qed

lemma depth_all: "counts_fit stmt \<Longrightarrow> depth_ok stmt vin cin"
proof (induction stmt arbitrary: vin cin)
  case (Combine l r)
  from Combine.prems have "counts_fit l" and "counts_fit r" by simp_all
  with Combine.IH have "\<And>vin cin. depth_ok l vin cin" and "\<And>vin cin. depth_ok r vin cin"
    by blast+
  with Combine.prems show ?case by (rule depth_Combine)
next
  case (ConstOp v)
  show ?case by (simp add: depth_ok_def ConstOp_apply_def)
next
  case (BinaryOP f)
  show ?case by (rule depth_BinaryOP)
next
  case Abs
  show ?case by (rule depth_Abs)
next
  case Input
  show ?case by (rule depth_Input)
next
  case Dup
  show ?case by (rule depth_Dup)
next
  case BlankStr
  show ?case by (simp add: depth_ok_def)
qed

lemma compose_counts_assoc:
  fixes a1 r1 a2 r2 a3 r3 :: nat
  shows "(a1 + (a2 - r1)) + (a3 - (r2 + (r1 - a2))) = a1 + ((a2 + (a3 - r2)) - r1)"
    and "r3 + ((r2 + (r1 - a2)) - a3) = (r3 + (r2 - a3)) + (r1 - (a2 + (a3 - r2)))"
  by arith+

subsection \<open>The loop of \<open>compile\<close>\<close>

lemma stoi_fits: "number_regex_match token \<Longrightarrow> literal_fits token \<Longrightarrow> \<exists>v. stoi token = Inr v"
  by (simp add: literal_fits_def stoi_def Let_def)

lemma stoi_unfit: "number_regex_match token \<Longrightarrow> \<not> literal_fits token \<Longrightarrow> stoi token = Inl OutOfRange"
  by (auto simp add: literal_fits_def stoi_def Let_def)

lemma compile_loop_fits:
  "list_all literal_fits tokens \<Longrightarrow> \<exists>ret'. compile_loop ret tokens = Inr ret'"
proof (induction tokens arbitrary: ret)
  case Nil
  show ?case by simp
next
  case (Cons token rest)
  then have fits: "literal_fits token" and rest: "list_all literal_fits rest" by simp_all
  show ?case
  proof (cases "number_regex_match token")
    case True
    with fits obtain v where "stoi token = Inr v" using stoi_fits by blast
    with True Cons.IH [OF rest] show ?thesis by simp
  next
    case False
    with Cons.IH [OF rest] show ?thesis by (cases "operator_mapping token") simp_all
  qed
qed

lemma compile_loop_Some:
  "list_all literal_fits tokens \<Longrightarrow> \<exists>stmt. compile_loop (Some acc) tokens = Inr (Some stmt)"
proof (induction tokens arbitrary: acc)
  case Nil
  show ?case by simp
next
  case (Cons token rest)
  then have fits: "literal_fits token" and rest: "list_all literal_fits rest" by simp_all
  show ?case
  proof (cases "number_regex_match token")
    case True
    with fits obtain v where "stoi token = Inr v" using stoi_fits by blast
    with True Cons.IH [OF rest] show ?thesis by (simp add: append_stmt_def)
  next
    case False
    with Cons.IH [OF rest] show ?thesis
      by (cases "operator_mapping token") (simp_all add: append_stmt_def)
  qed
qed

lemma compile_loop_recognized:
  "list_all literal_fits tokens \<Longrightarrow> list_ex recognized tokens \<Longrightarrow>
   \<exists>stmt. compile_loop ret tokens = Inr (Some stmt)"
proof (induction tokens arbitrary: ret)
  case Nil
  then show ?case by simp
next
  case (Cons token rest)
  then have fits: "literal_fits token" and rest: "list_all literal_fits rest" by simp_all
  show ?case
  proof (cases "recognized token")
    case True
    then obtain stmt where "compile_loop ret (token # rest) = compile_loop (Some stmt) rest"
    proof (cases "number_regex_match token")
      case True
      with fits obtain v where "stoi token = Inr v" using stoi_fits by blast
      with True that show ?thesis by (cases ret) (simp_all add: append_stmt_def)
    next
      case False
      with True obtain s where "operator_mapping token = Some s"
        by (auto simp: recognized_def)
      with False that show ?thesis by (cases ret) (simp_all add: append_stmt_def)
    qed
    with compile_loop_Some [OF rest] show ?thesis by simp
  next
    case False
    with Cons.prems(2) have ex: "list_ex recognized rest" by simp
    from False have "\<not> number_regex_match token" and "operator_mapping token = None"
      by (simp_all add: recognized_def)
    with Cons.IH [OF rest ex] show ?thesis by simp
  qed
qed

lemma compile_loop_unfit:
  "list_ex (\<lambda>t. \<not> literal_fits t) tokens \<Longrightarrow> compile_loop ret tokens = Inl OutOfRange"
proof (induction tokens arbitrary: ret)
  case Nil
  then show ?case by simp
next
  case (Cons token rest)
  show ?case
  proof (cases "literal_fits token")
    case True
    with Cons.prems have ex: "list_ex (\<lambda>t. \<not> literal_fits t) rest" by simp
    show ?thesis
    proof (cases "number_regex_match token")
      case m: True
      with True obtain v where "stoi token = Inr v" using stoi_fits by blast
      with m Cons.IH [OF ex] show ?thesis by simp
    next
      case False
      with Cons.IH [OF ex] show ?thesis by (cases "operator_mapping token") simp_all
    qed
  next
    case False
    then have "number_regex_match token" by (simp add: literal_fits_def)
    with False show ?thesis by (simp add: stoi_unfit)
  qed
qed

lemma regex_tokens_spaces:
  "list_all (\<lambda>c. c = CHR '' '') str \<Longrightarrow> regex_tokens [] str = []"
  by (induction str) (simp_all add: isspace_def)

subsection \<open>Truncating division stays in range\<close>

lemma sdiv_abs: "\<bar>(x::int) sdiv y\<bar> = \<bar>x\<bar> div \<bar>y\<bar>"
proof -
  have "0 \<le> \<bar>x\<bar> div \<bar>y\<bar>" by (simp add: div_int_pos_iff)
  then show ?thesis
    by (cases "x = 0"; cases "y = 0") (simp_all add: signed_divide_int_def abs_mult abs_sgn_eq)
qed

lemma div_le_self_int: "0 \<le> (x::int) \<Longrightarrow> x div y \<le> x"
  by (metis div_0 int_div_le_self nle_le linorder_not_less)

lemma sint_INT_MIN: "sint INT_MIN = - (2 ^ 31)"
  by (simp add: INT_MIN_def)

lemma sint_eq_INT_MIN: "sint a = - (2 ^ 31) \<Longrightarrow> a = INT_MIN"
  by (rule signed_word_eqI [where ?'a = int]) (simp add: sint_INT_MIN)

lemma sint_eq_minus_1: "sint (b::cint) = - 1 \<Longrightarrow> b = - 1"
  by (simp add: signed_word_eqI)

lemma sint_eq_0: "sint (b::cint) = 0 \<Longrightarrow> b = 0"
  by (simp add: signed_eq_0_iff)

lemma sdiv_in_range:
  fixes x y :: int
  assumes x: "- (2 ^ 31) \<le> x" "x < 2 ^ 31"
    and y: "y \<noteq> 0"
    and ov: "\<not> (x = - (2 ^ 31) \<and> y = - 1)"
  shows "- (2 ^ 31) \<le> x sdiv y \<and> x sdiv y < 2 ^ 31"
proof -
  have le: "\<bar>x\<bar> div \<bar>y\<bar> \<le> \<bar>x\<bar>" by (rule div_le_self_int) simp
  from x have ax: "\<bar>x\<bar> \<le> 2 ^ 31" by linarith
  with le have a: "\<bar>x sdiv y\<bar> \<le> 2 ^ 31" by (simp only: sdiv_abs)
  have "x sdiv y \<noteq> 2 ^ 31"
  proof
    assume top: "x sdiv y = 2 ^ 31"
    then have "\<bar>x\<bar> div \<bar>y\<bar> = 2 ^ 31" using sdiv_abs [of x y] by simp
    with le ax have full: "\<bar>x\<bar> = 2 ^ 31" and same: "\<bar>x\<bar> div \<bar>y\<bar> = \<bar>x\<bar>" by linarith+
    from full x have xmin: "x = - (2 ^ 31)" by linarith
    have "\<not> 2 \<le> \<bar>y\<bar>"
    proof
      assume "2 \<le> \<bar>y\<bar>"
      moreover from full have "0 < \<bar>x\<bar>" by simp
      ultimately have "\<bar>x\<bar> div \<bar>y\<bar> < \<bar>x\<bar>" by (simp add: int_div_less_self)
      with same show False by simp
    qed
    with y have "y = 1 \<or> y = - 1" by linarith
    with ov xmin have "y = 1" by blast
    with top xmin show False by simp
  qed
  with a show ?thesis by linarith
qed

lemma smod_in_range:
  fixes x y :: int
  assumes "- (2 ^ 31) \<le> y" "y < 2 ^ 31" and "y \<noteq> 0"
  shows "- (2 ^ 31) \<le> x smod y \<and> x smod y < 2 ^ 31"
proof -
  from assms(3) have "x smod y \<in> {- \<bar>y\<bar> + 1..\<bar>y\<bar> - 1}" by (rule smod_int_range)
  then have "- \<bar>y\<bar> + 1 \<le> x smod y" and "x smod y \<le> \<bar>y\<bar> - 1" by simp_all
  with assms(1,2) show ?thesis by linarith
qed

lemma int_plus_max_diff:
  "int a + max (int x - int y) 0 = int (a + (x - y))"
  by simp

subsection \<open>Results of the function objects\<close>

lemma signed_take_bit_wrap32: "signed_take_bit 31 n = wrap32 n"
  by (simp add: wrap32_def signed_take_bit_eq_take_bit_shift take_bit_eq_mod)

lemma wrap32_in_range: "- (2 ^ 31) \<le> n \<Longrightarrow> n < 2 ^ 31 \<Longrightarrow> wrap32 n = n"
  unfolding signed_take_bit_wrap32 [symmetric] by (rule signed_take_bit_int_eq_self)

lemma sint_word_of_int: "sint (word_of_int n :: cint) = wrap32 n"
  by (simp add: signed_of_int signed_take_bit_wrap32)

lemma sint_bounds: "- (2 ^ 31) \<le> sint (a :: cint) \<and> sint a < 2 ^ 31"
  using sint_ge [of a] sint_lt [of a] by simp

lemma call_func_wraps:
  assumes "\<not> undefined_division f a b"
  shows "\<exists>c. call_func f a b = Inr c \<and> sint c = wrap32 (exact f (sint a) (sint b))"
proof (cases f)
  case std_plus
  then show ?thesis by (simp add: sint_word_ariths signed_take_bit_wrap32)
next
  case std_minus
  then show ?thesis by (simp add: sint_word_ariths signed_take_bit_wrap32)
next
  case std_multiplies
  then show ?thesis by (simp add: sint_word_ariths signed_take_bit_wrap32)
next
  case std_divides
  with assms show ?thesis by (simp add: undefined_division_def sint_word_of_int)
next
  case std_modulus
  with assms show ?thesis by (simp add: undefined_division_def sint_word_of_int)
qed

lemma exact_division_in_range:
  assumes "f = std_divides \<or> f = std_modulus" and "\<not> undefined_division f a b"
  shows "- (2 ^ 31) \<le> exact f (sint a) (sint b) \<and> exact f (sint a) (sint b) < 2 ^ 31"
proof -
  from assms have b: "b \<noteq> 0" and ov: "\<not> (a = INT_MIN \<and> b = - 1)"
    by (auto simp: undefined_division_def)
  from b have y: "sint b \<noteq> 0" using sint_eq_0 by blast
  from ov have ov': "\<not> (sint a = - (2 ^ 31) \<and> sint b = - 1)"
    using sint_eq_INT_MIN sint_eq_minus_1 by blast
  from assms(1) show ?thesis
  proof
    assume "f = std_divides"
    with sdiv_in_range [of "sint a" "sint b"] y ov' sint_bounds [of a] show ?thesis by simp
  next
    assume "f = std_modulus"
    with smod_in_range [of "sint b" "sint a"] y sint_bounds [of b] show ?thesis by simp
  qed
qed

subsection \<open>Pure statements\<close>

lemma pure_apply_result:
  "is_pure stmt \<Longrightarrow>
   \<exists>res. \<forall>cin. apply_stmt stmt (vin, cin) =
      (case res of Inl e \<Rightarrow> Inl e | Inr out \<Rightarrow> Inr (out, cin))"
proof (induction stmt arbitrary: vin)
  case (Combine l r)
  then have pl: "is_pure l" and pr: "is_pure r" by simp_all
  from Combine.IH(1) [OF pl, of vin] obtain res1 where
    l: "\<And>cin. apply_stmt l (vin, cin) = (case res1 of Inl e \<Rightarrow> Inl e | Inr out \<Rightarrow> Inr (out, cin))"
    by blast
  show ?case
  proof (cases res1)
    case (Inl e)
    with l have "\<forall>cin. apply_stmt (Combine l r) (vin, cin) =
        (case Inl e of Inl e \<Rightarrow> Inl e | Inr out \<Rightarrow> Inr (out, cin))" by simp
    then show ?thesis by blast
  next
    case (Inr v1)
    from Combine.IH(2) [OF pr, of v1] obtain res2 where
      r: "\<And>cin. apply_stmt r (v1, cin) = (case res2 of Inl e \<Rightarrow> Inl e | Inr out \<Rightarrow> Inr (out, cin))"
      by blast
    with l Inr have "\<forall>cin. apply_stmt (Combine l r) (vin, cin) =
        (case res2 of Inl e \<Rightarrow> Inl e | Inr out \<Rightarrow> Inr (out, cin))" by simp
    then show ?thesis by blast
  qed
next
  case (ConstOp v)
  have "\<forall>cin. apply_stmt (ConstOp v) (vin, cin) =
      (case Inr (ConstOp_apply v vin) of Inl e \<Rightarrow> Inl e | Inr out \<Rightarrow> Inr (out, cin))" by simp
  then show ?case by blast
next
  case (BinaryOP f)
  have "\<forall>cin. apply_stmt (BinaryOP f) (vin, cin) =
      (case BinaryOP_apply f vin of Inl e \<Rightarrow> Inl e | Inr out \<Rightarrow> Inr (out, cin))"
    by (simp add: on_vec_def split: sum.split)
  then show ?case by blast
next
  case Abs
  have "\<forall>cin. apply_stmt Abs (vin, cin) =
      (case Abs_apply vin of Inl e \<Rightarrow> Inl e | Inr out \<Rightarrow> Inr (out, cin))"
    by (simp add: on_vec_def split: sum.split)
  then show ?case by blast
next
  case Input
  then show ?case by simp
next
  case Dup
  have "\<forall>cin. apply_stmt Dup (vin, cin) =
      (case Dup_apply vin of Inl e \<Rightarrow> Inl e | Inr out \<Rightarrow> Inr (out, cin))"
    by (simp add: on_vec_def split: sum.split)
  then show ?case by blast
next
  case BlankStr
  have "\<forall>cin. apply_stmt BlankStr (vin, cin) =
      (case Inr vin of Inl e \<Rightarrow> Inl e | Inr out \<Rightarrow> Inr (out, cin))" by simp
  then show ?case by blast
qed

subsection \<open>The loops of part_003 and part_004 on an unknown word\<close>

lemma compile_loop_p4_stuck:
  assumes "compile_loop_p4 ret0 str0 = Some y0"
  shows "str0 \<noteq> ''x''"
proof (rule compile_loop_p4.raw_induct [where P = "\<lambda>ret str y. str \<noteq> ''x''", OF _ assms])
  fix f ret str y
  assume IH: "\<And>ret str y. f ret str = Some y \<Longrightarrow> str \<noteq> ''x''"
    and body: "(if str = [] then Some ret
      else if hd str = CHR '' '' then f ret (consume_space str)
      else (case consume_token_p4 operator_mappings str of
              Some (stmt, str1) \<Rightarrow> f (append_stmt ret stmt) str1
            | None \<Rightarrow>
                (let (number, len) = scan_digits str
                 in f (append_stmt ret (ConstOp number)) (drop len str)))) = Some y"
  show "str \<noteq> ''x''"
  proof
    assume x: "str = ''x''"
    have "consume_token_p4 operator_mappings ''x'' = None"
      by (simp add: operator_mappings_def starts_with_def)
    moreover have "scan_digits ''x'' = (0, 0)"
      by (simp add: scan_digits_def isdigit_def)
    ultimately have "f (append_stmt ret (ConstOp 0)) ''x'' = Some y"
      using body x by simp
    then have "''x'' \<noteq> ''x''" by (rule IH)
    then show False by simp
  qed
qed

lemma compile_loop_p3_stuck:
  assumes "compile_loop_p3 ret0 str0 = Some y0"
  shows "str0 \<noteq> ''x''"
proof (rule compile_loop_p3.raw_induct [where P = "\<lambda>ret str y. str \<noteq> ''x''", OF _ assms])
  fix f ret str y
  assume IH: "\<And>ret str y. f ret str = Some y \<Longrightarrow> str \<noteq> ''x''"
    and body: "(if str = [] then Some ret
      else let str1 = consume_space str in
        if str1 = [] then Some ret
        else (case parse_num str1 of
                Some (number, str2) \<Rightarrow> f (append_stmt ret (ConstOp number)) str2
              | None \<Rightarrow>
                  (case find_operator_p3 operator_mappings str1 of
                     Some (stmt, str2) \<Rightarrow> f (append_stmt ret stmt) str2
                   | None \<Rightarrow> f ret str1))) = Some y"
  show "str \<noteq> ''x''"
  proof
    assume x: "str = ''x''"
    have "parse_num ''x'' = None"
      by (simp add: parse_num_def scan_digits_def isdigit_def)
    moreover have "find_operator_p3 operator_mappings ''x'' = None"
      by (simp add: operator_mappings_def starts_with_def)
    moreover have "consume_space ''x'' = ''x''" by (simp add: consume_space_def)
    ultimately have "f ret ''x'' = Some y"
      using body x by simp
    then have "''x'' \<noteq> ''x''" by (rule IH)
    then show False by simp
  qed
qed

section \<open>The claims\<close>

subsection \<open>C1: \<open>optimize\<close> and the result of \<open>apply\<close>\<close>

text \<open>
  Claim C1 says that \<open>apply(optimize(op), s)\<close> equals \<open>apply(op, s)\<close> for every
  operation built from literals, binary arithmetic, \<open>abs\<close> and \<open>dup\<close>. Both versions of
  \<open>optimize\<close> break it on two literals in sequence: applied to the empty vector,
  \<open>2 3\<close> gives \<open>[2, 3]\<close>; after \<open>optimize\<close> of part_002 it gives \<open>[3]\<close>, after
  \<open>optimize\<close> of \<open>polka.cpp\<close> it gives \<open>[5]\<close>; and \<open>compile\<close> of part_002, which
  returns \<open>optimize(ret)\<close>, turns the text \<open>2 3\<close> into the single literal \<open>3\<close>.
\<close>

theorem optimize_drops_literal:
  "apply_stmt (Combine (ConstOp 2) (ConstOp 3)) ([], []) = Inr ([2, 3], []) \<and>
   apply_stmt (optimize (Combine (ConstOp 2) (ConstOp 3))) ([], []) = Inr ([3], []) \<and>
   apply_stmt (optimize_polka (Combine (ConstOp 2) (ConstOp 3))) ([], []) = Inr ([5], []) \<and>
   compile ''2 3'' = Inr (Some (ConstOp 3))"
proof -
  have "compile ''2 3'' = Inr (Some (ConstOp 3))" by code_simp
  then show ?thesis by (simp add: Let_def std_max_int_def ConstOp_apply_def)
qed

subsection \<open>C2: \<open>compile\<close> as a total function\<close>

text \<open>
  Claim C2 says that \<open>compile\<close> never raises an error. In part_002 a number token that
  is not an \<open>int\<close> makes \<open>std::stoi\<close> throw: \<open>compile("2147483648")\<close> ends in
  \<open>std::out_of_range\<close>.
\<close>

theorem compile_raises_out_of_range: "compile ''2147483648'' = Inl OutOfRange"
  by code_simp

text \<open>
  Claim C2 as amended, for \<open>compile\<close> of part_002. For the empty string and for a
  string of spaces it returns \<open>BlankStr\<close>, which has 0 arguments and 0 results, is pure
  and whose \<open>apply\<close> returns its input. When every number token of the string is an
  \<open>int\<close>, \<open>compile\<close> returns; when moreover some token is a number or an operator, it
  returns a statement. When some number token is not an \<open>int\<close>, it throws
  \<open>std::out_of_range\<close>.
\<close>

theorem compile_total_when_literals_fit:
  "(str = [] \<or> list_all (\<lambda>c. c = CHR '' '') str \<longrightarrow>
      compile str = Inr (Some BlankStr) \<and> get_arguments_count BlankStr = 0 \<and>
      get_results_count BlankStr = 0 \<and> is_pure BlankStr \<and> apply_stmt BlankStr m = Inr m) \<and>
   (list_all literal_fits (regex_tokens [] str) \<longrightarrow> (\<exists>ret. compile str = Inr ret)) \<and>
   (list_all literal_fits (regex_tokens [] str) \<and> list_ex recognized (regex_tokens [] str) \<longrightarrow>
      (\<exists>stmt. compile str = Inr (Some stmt))) \<and>
   (list_ex (\<lambda>token. \<not> literal_fits token) (regex_tokens [] str) \<longrightarrow>
      compile str = Inl OutOfRange)"
proof (intro conjI impI)
  assume "str = [] \<or> list_all (\<lambda>c. c = CHR '' '') str"
  then show "compile str = Inr (Some BlankStr)" by (auto simp: compile_def)
next
  show "get_arguments_count BlankStr = 0" "get_results_count BlankStr = 0"
    "is_pure BlankStr" "apply_stmt BlankStr m = Inr m" by simp_all
next
  assume "list_all literal_fits (regex_tokens [] str)"
  then obtain ret where "compile_loop None (regex_tokens [] str) = Inr ret"
    using compile_loop_fits by blast
  then show "\<exists>ret. compile str = Inr ret" by (simp add: compile_def)
next
  assume "list_all literal_fits (regex_tokens [] str) \<and> list_ex recognized (regex_tokens [] str)"
  then obtain stmt where loop: "compile_loop None (regex_tokens [] str) = Inr (Some stmt)"
    using compile_loop_recognized by blast
  then show "\<exists>stmt. compile str = Inr (Some stmt)"
    by (simp add: compile_def optimize_ptr_def)
next
  assume ex: "list_ex (\<lambda>token. \<not> literal_fits token) (regex_tokens [] str)"
  then have loop: "compile_loop None (regex_tokens [] str) = Inl OutOfRange"
    by (rule compile_loop_unfit)
  have "\<not> (str = [] \<or> list_all (\<lambda>c. c = CHR '' '') str)"
  proof
    assume "str = [] \<or> list_all (\<lambda>c. c = CHR '' '') str"
    then have "regex_tokens [] str = []" by (auto simp: regex_tokens_spaces)
    with ex show False by simp
  qed
  with loop show "compile str = Inl OutOfRange" by (simp add: compile_def)
qed

theorem compile_total_when_literals_fit_witness:
  "list_all (\<lambda>c. c = CHR '' '') ''  '' \<and> compile ''  '' = Inr (Some BlankStr) \<and>
   list_all literal_fits (regex_tokens [] ''2 x 3 +'') \<and>
   list_ex recognized (regex_tokens [] ''2 x 3 +'') \<and>
   (\<exists>stmt. compile ''2 x 3 +'' = Inr (Some stmt)) \<and>
   list_ex (\<lambda>token. \<not> literal_fits token) (regex_tokens [] ''1 2147483648 +'') \<and>
   compile ''1 2147483648 +'' = Inl OutOfRange"
proof -
  have a: "list_all (\<lambda>c. c = CHR '' '') ''  ''" by simp
  have b: "list_all literal_fits (regex_tokens [] ''2 x 3 +'')" by code_simp
  have c: "list_ex recognized (regex_tokens [] ''2 x 3 +'')" by code_simp
  have d: "list_ex (\<lambda>token. \<not> literal_fits token) (regex_tokens [] ''1 2147483648 +'')"
    by code_simp
  from a b c d
    compile_total_when_literals_fit [of "''  ''" "([], [])"]
    compile_total_when_literals_fit [of "''2 x 3 +''" "([], [])"]
    compile_total_when_literals_fit [of "''1 2147483648 +''" "([], [])"]
  show ?thesis by blast
qed

subsection \<open>C3: the arguments of a \<open>Combine\<close>\<close>

text \<open>
  Claim C3 gives \<open>max(l.arguments, r.arguments - l.results)\<close> as the arguments of a
  sequence and calls that value the least depth on which it can be applied. For
  \<open>+ +\<close> the formula gives 2; \<open>calculateArgumentsCount\<close> of part_002 gives 3, and on
  a vector of length 2 the second \<open>+\<close> reads an empty vector.
\<close>

theorem Combine_arguments_not_spec_max:
  "uint (get_arguments_count (Combine (BinaryOP std_plus) (BinaryOP std_plus))) = 3 \<and>
   spec_sequence_arguments (BinaryOP std_plus) (BinaryOP std_plus) = 2 \<and>
   apply_stmt (Combine (BinaryOP std_plus) (BinaryOP std_plus)) ([1, 2], []) = Inl EmptyVector"
  by (simp add: spec_sequence_arguments_def std_max_int_def on_vec_def BinaryOP_apply_def
      word_sless_alt)

text \<open>
  Claim C3 as amended, for part_002. While the counts fit, a \<open>Combine\<close> has
  \<open>l.arguments + max(r.arguments - l.results, 0)\<close> arguments, and that number is the
  least depth on which it can be applied: on a shorter vector \<open>apply\<close> ends in a
  fault, and on no vector of at least that length does it read an empty vector.
\<close>

theorem Combine_arguments_minimum_depth:
  assumes "counts_fit (Combine l r)"
  shows "uint (get_arguments_count (Combine l r)) =
           uint (get_arguments_count l)
             + max (uint (get_arguments_count r) - uint (get_results_count l)) 0 \<and>
         (length vin < unat (get_arguments_count (Combine l r)) \<longrightarrow>
            (\<exists>e. apply_stmt (Combine l r) (vin, cin) = Inl e)) \<and>
         (unat (get_arguments_count (Combine l r)) \<le> length vin \<longrightarrow>
            apply_stmt (Combine l r) (vin, cin) \<noteq> Inl EmptyVector)"
proof -
  have "unat (get_arguments_count (Combine l r)) =
          unat (get_arguments_count l)
            + (unat (get_arguments_count r) - unat (get_results_count l))"
    using assms by (rule Combine_counts)
  then have "uint (get_arguments_count (Combine l r)) =
           uint (get_arguments_count l)
             + max (uint (get_arguments_count r) - uint (get_results_count l)) 0"
    unfolding uint_nat by (simp only: int_plus_max_diff)
  moreover from assms have "depth_ok (Combine l r) vin cin" by (rule depth_all)
  ultimately show ?thesis unfolding depth_ok_def by blast
qed

theorem Combine_arguments_minimum_depth_witness:
  "counts_fit (Combine (BinaryOP std_plus) (BinaryOP std_plus)) \<and>
   compile ''+ +'' = Inr (Some (Combine (BinaryOP std_plus) (BinaryOP std_plus))) \<and>
   uint (get_arguments_count (Combine (BinaryOP std_plus) (BinaryOP std_plus)))
     = 2 + max (2 - 1) 0 \<and>
   (\<exists>e. apply_stmt (Combine (BinaryOP std_plus) (BinaryOP std_plus)) ([1, 2], []) = Inl e) \<and>
   apply_stmt (Combine (BinaryOP std_plus) (BinaryOP std_plus)) ([1, 2, 3], [])
     \<noteq> Inl EmptyVector"
proof -
  have fit: "counts_fit (Combine (BinaryOP std_plus) (BinaryOP std_plus))" by simp
  have c: "compile ''+ +'' = Inr (Some (Combine (BinaryOP std_plus) (BinaryOP std_plus)))"
    by code_simp
  have n: "unat (get_arguments_count (Combine (BinaryOP std_plus) (BinaryOP std_plus))) = 3"
    by (simp add: std_max_int_def word_sless_alt)
  from Combine_arguments_minimum_depth [OF fit, of "[1, 2]" "[]"]
    Combine_arguments_minimum_depth [OF fit, of "[1, 2, 3]" "[]"] fit c n
  show ?thesis by simp
qed

subsection \<open>C4: the order of the children in \<open>Combine::apply\<close>\<close>

text \<open>
  Claim C4 says that a sequence applies its left child first and its right child to
  the result. \<open>Combine::apply\<close> of part_004 applies the right child first: on \<open>[5]\<close>
  the sequence of the literal 1 and \<open>dup\<close> gives \<open>[5, 5, 1]\<close>, where left before
  right gives \<open>[5, 1, 1]\<close>; and \<open>1 +\<close> on \<open>[0]\<close>, which the \<open>main\<close> of part_004
  asserts to be \<open>[1]\<close> and which \<open>apply\<close> of part_002 computes, reads an empty
  vector.
\<close>

theorem Combine_apply_p4_right_child_first:
  "apply_stmt_p4 (Combine (ConstOp 1) Dup) ([5], []) = Inr ([5, 5, 1], []) \<and>
   (case apply_stmt_p4 (ConstOp 1) ([5], []) of Inl e \<Rightarrow> Inl e
    | Inr m1 \<Rightarrow> apply_stmt_p4 Dup m1) = Inr ([5, 1, 1], []) \<and>
   apply_stmt_p4 (Combine (ConstOp 1) (BinaryOP std_plus)) ([0], []) = Inl EmptyVector \<and>
   apply_stmt (Combine (ConstOp 1) (BinaryOP std_plus)) ([0], []) = Inr ([1], [])"
  by (simp add: on_vec_def ConstOp_apply_def Dup_apply_def BinaryOP_apply_def)

subsection \<open>C5: the declared counts of \<open>abs\<close> and \<open>input\<close>\<close>

text \<open>
  Claim C5 says that \<open>compile("abs")\<close> has 1 argument, 1 result and is pure, and that
  \<open>compile("input")\<close> has 0 arguments, 1 result and is not pure. In part_003
  \<open>compile("abs")\<close> is an \<open>Abs\<close> that declares 0 arguments, and \<open>compile("input")\<close>
  is an \<open>Input\<close> that declares itself pure.
\<close>

theorem Abs_Input_declared_p3:
  "compile_p3 ''abs'' = Some (Some Abs) \<and>
   get_arguments_count_p3 Abs = 0 \<and> get_results_count_p3 Abs = 1 \<and> is_pure_p3 Abs \<and>
   compile_p3 ''input'' = Some (Some Input) \<and>
   get_arguments_count_p3 Input = 0 \<and> get_results_count_p3 Input = 1 \<and> is_pure_p3 Input"
proof -
  have "compile_p3 ''abs'' = Some (Some Abs)" by code_simp
  moreover have "compile_p3 ''input'' = Some (Some Input)" by code_simp
  ultimately show ?thesis by simp
qed

subsection \<open>C6: \<open>optimize\<close> when the right child needs more arguments\<close>

text \<open>
  Claim C6 says that, when the optimized right child takes more arguments than the
  optimized left child has results, \<open>optimize\<close> returns a \<open>Combine\<close> of the two
  optimized children and not the node it was given. For \<open>1 2 +\<close> the comparison holds
  (the left child optimizes to one literal, \<open>+\<close> takes two arguments), and the result
  is not the \<open>Combine\<close> of the optimized children.
\<close>

theorem optimize_guard_keeps_unoptimized_children:
  "get_results_count (optimize (Combine (ConstOp 1) (ConstOp 2)))
      < get_arguments_count (optimize (BinaryOP std_plus)) \<and>
   optimize (Combine (Combine (ConstOp 1) (ConstOp 2)) (BinaryOP std_plus)) \<noteq>
   Combine (optimize (Combine (ConstOp 1) (ConstOp 2))) (optimize (BinaryOP std_plus))"
  by (simp add: Let_def std_max_int_def ConstOp_apply_def)

text \<open>
  Claim C6 as amended: when the optimized right child takes more arguments than the
  optimized left child has results, \<open>optimize\<close> returns the node it was given, with its
  children as they were; nothing is folded.
\<close>

theorem optimize_guard_returns_original:
  "get_results_count (optimize l) < get_arguments_count (optimize r) \<Longrightarrow>
   optimize (Combine l r) = Combine l r"
  by (simp add: Let_def)

theorem optimize_guard_returns_original_witness:
  "get_results_count (optimize (Combine (ConstOp 1) (ConstOp 2)))
      < get_arguments_count (optimize (BinaryOP std_plus)) \<and>
   optimize (Combine (Combine (ConstOp 1) (ConstOp 2)) (BinaryOP std_plus)) =
   Combine (Combine (ConstOp 1) (ConstOp 2)) (BinaryOP std_plus)"
proof -
  have g: "get_results_count (optimize (Combine (ConstOp 1) (ConstOp 2)))
      < get_arguments_count (optimize (BinaryOP std_plus))"
    by (simp add: Let_def std_max_int_def ConstOp_apply_def)
  from g optimize_guard_returns_original [OF g] show ?thesis by blast
qed

subsection \<open>C7: one policy for a vector that is too short\<close>

text \<open>
  Claim C7 says that every operation treats a vector shorter than its arguments the
  same way. In part_003 \<open>BinaryOP::apply\<close> returns such a vector unchanged, while
  \<open>Dup::apply\<close> and \<open>Abs::apply\<close> call \<open>back()\<close> on the empty vector.
\<close>

theorem underflow_policy_mixed_p3:
  "apply_stmt_p3 (BinaryOP f) ([1], cin) = Inr ([1], cin) \<and>
   apply_stmt_p3 (BinaryOP f) ([], cin) = Inr ([], cin) \<and>
   apply_stmt_p3 Dup ([], cin) = Inl EmptyVector \<and>
   apply_stmt_p3 Abs ([], cin) = Inl EmptyVector"
  by (simp add: on_vec_def BinaryOP_apply_p3_def Dup_apply_def Abs_apply_def)

subsection \<open>C8: a pure operation depends on its vector only\<close>

text \<open>
  Claim C8 says that an operation with \<open>is_pure()\<close> true gives equal results on equal
  vectors, whatever the external input. In part_003 \<open>Input\<close> declares itself pure, and
  its result on the empty vector is the integer read from \<open>std::cin\<close>.
\<close>

theorem Input_pure_reads_cin_p3:
  "compile_p3 ''input'' = Some (Some Input) \<and> is_pure_p3 Input \<and>
   apply_stmt_p3 Input ([], [1]) = Inr ([1], []) \<and>
   apply_stmt_p3 Input ([], [2]) = Inr ([2], [])"
proof -
  have "compile_p3 ''input'' = Some (Some Input)" by code_simp
  then show ?thesis by (simp add: Input_apply_def)
qed

subsection \<open>C9: wrap-around of binary arithmetic\<close>

text \<open>
  Claim C9 says that \<open>2147483647 1 +\<close> gives \<open>[-2147483648]\<close> and that every result
  of a binary operation is reduced modulo \<open>2 ^ 32\<close> rather than failing. The quotient
  of \<open>-2147483648\<close> by \<open>-1\<close> is not an \<open>int\<close>: \<open>compile("-2147483648 -1 /")\<close> returns
  a statement whose \<open>apply\<close> on the empty vector ends in the trap of the division.
\<close>

theorem divides_traps_on_overflow:
  "compile ''-2147483648 -1 /''
     = Inr (Some (Combine (Combine (ConstOp INT_MIN) (ConstOp (- 1))) (BinaryOP std_divides))) \<and>
   apply_stmt (Combine (Combine (ConstOp INT_MIN) (ConstOp (- 1))) (BinaryOP std_divides))
     ([], []) = Inl ArithmeticTrap"
proof
  show "compile ''-2147483648 -1 /''
     = Inr (Some (Combine (Combine (ConstOp INT_MIN) (ConstOp (- 1))) (BinaryOP std_divides)))"
    by code_simp
  show "apply_stmt (Combine (Combine (ConstOp INT_MIN) (ConstOp (- 1))) (BinaryOP std_divides))
     ([], []) = Inl ArithmeticTrap"
    by (simp add: on_vec_def ConstOp_apply_def BinaryOP_apply_def)
qed

text \<open>
  Claim C9 as amended, for part_002. \<open>2147483647 1 +\<close> gives \<open>[-2147483648]\<close>. A
  binary operation on \<open>a\<close> and \<open>b\<close> (\<open>b\<close> on top) replaces them by the exact result
  reduced modulo \<open>2 ^ 32\<close> into the range of \<open>int\<close>, unless it is a division or a
  remainder with \<open>b = 0\<close> or with \<open>a = INT_MIN\<close> and \<open>b = -1\<close>, which trap. A quotient
  or remainder that does not trap is the exact one.
\<close>

theorem BinaryOP_wraps_unless_division_undefined:
  "compile ''2147483647 1 +''
     = Inr (Some (Combine (Combine (ConstOp 2147483647) (ConstOp 1)) (BinaryOP std_plus))) \<and>
   apply_stmt (Combine (Combine (ConstOp 2147483647) (ConstOp 1)) (BinaryOP std_plus)) ([], cin)
     = Inr ([INT_MIN], cin) \<and>
   sint INT_MIN = - 2147483648 \<and>
   (\<not> undefined_division f a b \<longrightarrow>
      (\<exists>c. BinaryOP_apply f (vin @ [a, b]) = Inr (vin @ [c]) \<and>
           sint c = wrap32 (exact f (sint a) (sint b)))) \<and>
   (\<not> undefined_division f a b \<and> (f = std_divides \<or> f = std_modulus) \<longrightarrow>
      (\<exists>c. BinaryOP_apply f (vin @ [a, b]) = Inr (vin @ [c]) \<and>
           sint c = exact f (sint a) (sint b))) \<and>
   (undefined_division f a b \<longrightarrow> BinaryOP_apply f (vin @ [a, b]) = Inl ArithmeticTrap)"
proof (intro conjI impI)
  show "compile ''2147483647 1 +''
     = Inr (Some (Combine (Combine (ConstOp 2147483647) (ConstOp 1)) (BinaryOP std_plus)))"
    by code_simp
  show "apply_stmt (Combine (Combine (ConstOp 2147483647) (ConstOp 1)) (BinaryOP std_plus)) ([], cin)
     = Inr ([INT_MIN], cin)"
    by (simp add: on_vec_def ConstOp_apply_def BinaryOP_apply_def INT_MIN_def)
  show "sint INT_MIN = - 2147483648" by (simp add: INT_MIN_def)
next
  assume "\<not> undefined_division f a b"
  then obtain c where "call_func f a b = Inr c" "sint c = wrap32 (exact f (sint a) (sint b))"
    using call_func_wraps by blast
  then show "\<exists>c. BinaryOP_apply f (vin @ [a, b]) = Inr (vin @ [c]) \<and>
           sint c = wrap32 (exact f (sint a) (sint b))"
    by (simp add: BinaryOP_apply_two)
next
  assume h: "\<not> undefined_division f a b \<and> (f = std_divides \<or> f = std_modulus)"
  then obtain c where c: "call_func f a b = Inr c" "sint c = wrap32 (exact f (sint a) (sint b))"
    using call_func_wraps by blast
  from h have "wrap32 (exact f (sint a) (sint b)) = exact f (sint a) (sint b)"
    using exact_division_in_range [of f a b] by (simp add: wrap32_in_range)
  with c show "\<exists>c. BinaryOP_apply f (vin @ [a, b]) = Inr (vin @ [c]) \<and>
           sint c = exact f (sint a) (sint b)"
    by (simp add: BinaryOP_apply_two)
next
  assume "undefined_division f a b"
  then have "call_func f a b = Inl ArithmeticTrap"
    by (auto simp: undefined_division_def)
  then show "BinaryOP_apply f (vin @ [a, b]) = Inl ArithmeticTrap"
    by (simp add: BinaryOP_apply_two)
qed

theorem BinaryOP_wraps_unless_division_undefined_witness:
  "\<not> undefined_division std_multiplies 65536 65536 \<and>
   (\<exists>c. BinaryOP_apply std_multiplies ([7] @ [65536, 65536]) = Inr ([7] @ [c]) \<and>
        sint c = wrap32 (exact std_multiplies (sint (65536 :: cint)) (sint (65536 :: cint)))) \<and>
   wrap32 (exact std_multiplies (sint (65536 :: cint)) (sint (65536 :: cint))) = 0 \<and>
   \<not> undefined_division std_divides (- 7) 2 \<and>
   (\<exists>c. BinaryOP_apply std_divides ([] @ [- 7, 2]) = Inr ([] @ [c]) \<and>
        sint c = exact std_divides (sint (- 7 :: cint)) (sint (2 :: cint))) \<and>
   exact std_divides (sint (- 7 :: cint)) (sint (2 :: cint)) = - 3 \<and>
   undefined_division std_modulus 5 0 \<and>
   BinaryOP_apply std_modulus ([] @ [5, 0]) = Inl ArithmeticTrap"
proof -
  have m: "\<not> undefined_division std_multiplies 65536 65536"
    by (simp add: undefined_division_def)
  have d: "\<not> undefined_division std_divides (- 7) 2"
    by (simp add: undefined_division_def)
  have u: "undefined_division std_modulus 5 0"
    by (simp add: undefined_division_def)
  have w: "wrap32 (exact std_multiplies (sint (65536 :: cint)) (sint (65536 :: cint))) = 0"
    by (simp add: wrap32_def)
  have q: "exact std_divides (sint (- 7 :: cint)) (sint (2 :: cint)) = - 3"
    by (simp add: signed_divide_int_def)
  from m d u w q
    BinaryOP_wraps_unless_division_undefined [of "[]" std_multiplies 65536 65536 "[7]"]
    BinaryOP_wraps_unless_division_undefined [of "[]" std_divides "- 7" 2 "[]"]
    BinaryOP_wraps_unless_division_undefined [of "[]" std_modulus 5 0 "[]"]
  show ?thesis by blast
qed

subsection \<open>C10: a primitive leaves the vector below its arguments alone\<close>

text \<open>
  Claim C10, for part_002: a statement that is not a \<open>Combine\<close> and declares \<open>k\<close>
  arguments, applied to a vector of at least \<open>k\<close> elements, either traps in a
  division or finds \<open>std::cin\<close> empty, or returns a vector that agrees with its input
  on all elements below the top \<open>k\<close>, in the same order.
\<close>

theorem primitive_frame:
  assumes "\<not> is_Combine stmt"
    and "unat (get_arguments_count stmt) \<le> length vin"
  shows "(\<exists>e. apply_stmt stmt (vin, cin) = Inl e \<and> e \<noteq> EmptyVector) \<or>
         (\<exists>out cin'. apply_stmt stmt (vin, cin) = Inr (out, cin') \<and>
            length vin - unat (get_arguments_count stmt) \<le> length out \<and>
            take (length vin - unat (get_arguments_count stmt)) out =
            take (length vin - unat (get_arguments_count stmt)) vin)"
proof (cases stmt)
  case (Combine l r)
  with assms(1) show ?thesis by simp
next
  case (ConstOp v)
  then show ?thesis by (simp add: ConstOp_apply_def)
next
  case (BinaryOP f)
  with assms(2) have "2 \<le> length vin" by simp
  then obtain pre a b where vin: "vin = pre @ [a, b]" by (rule two_or_more)
  show ?thesis
  proof (cases "call_func f a b")
    case (Inl e)
    then have "e = ArithmeticTrap" by (rule call_func_fault)
    with Inl BinaryOP vin show ?thesis
      by (simp add: on_vec_def BinaryOP_apply_two)
  next
    case (Inr c)
    with BinaryOP vin show ?thesis
      by (simp add: on_vec_def BinaryOP_apply_two)
  qed
next
  case Abs
  with assms(2) obtain pre b where "vin = pre @ [b]"
    by (cases vin rule: rev_cases) auto
  with Abs show ?thesis by (simp add: on_vec_def Abs_apply_def)
next
  case Input
  then show ?thesis by (cases cin) (simp_all add: Input_apply_def)
next
  case Dup
  with assms(2) obtain pre b where "vin = pre @ [b]"
    by (cases vin rule: rev_cases) auto
  with Dup show ?thesis by (simp add: on_vec_def Dup_apply_def)
next
  case BlankStr
  then show ?thesis by simp
qed

theorem primitive_frame_witness:
  "\<not> is_Combine (BinaryOP std_minus) \<and>
   unat (get_arguments_count (BinaryOP std_minus)) \<le> length [1, 2, 3 :: cint] \<and>
   apply_stmt (BinaryOP std_minus) ([1, 2, 3], []) = Inr ([1, - 1], []) \<and>
   take (length [1, 2, 3 :: cint] - unat (get_arguments_count (BinaryOP std_minus))) [1, - 1 :: cint]
     = take (length [1, 2, 3 :: cint] - unat (get_arguments_count (BinaryOP std_minus))) [1, 2, 3]"
proof -
  have c: "\<not> is_Combine (BinaryOP std_minus)" by simp
  have k: "unat (get_arguments_count (BinaryOP std_minus)) \<le> length [1, 2, 3 :: cint]" by simp
  have a: "apply_stmt (BinaryOP std_minus) ([1, 2, 3], []) = Inr ([1, - 1], [])"
    by (simp add: on_vec_def BinaryOP_apply_def)
  from c k a primitive_frame [OF c k, of "[]"] show ?thesis by simp
qed

section \<open>Further properties of part_002 and of the older versions\<close>

text \<open>
  \<open>Combine::apply\<close> of part_002 applies the left child, then the right child to what
  the left child returned.
\<close>

theorem Combine_apply_left_child_first:
  "apply_stmt (Combine l r) m =
     (case apply_stmt l m of Inl e \<Rightarrow> Inl e | Inr m1 \<Rightarrow> apply_stmt r m1)"
  by simp

text \<open>
  \<open>compile\<close> of part_002 on each operator token, and the counts and purity the class
  declares.
\<close>

theorem compile_operator_table:
  "compile ''+'' = Inr (Some (BinaryOP std_plus)) \<and>
   compile ''-'' = Inr (Some (BinaryOP std_minus)) \<and>
   compile ''*'' = Inr (Some (BinaryOP std_multiplies)) \<and>
   compile ''/'' = Inr (Some (BinaryOP std_divides)) \<and>
   compile ''%'' = Inr (Some (BinaryOP std_modulus)) \<and>
   compile ''abs'' = Inr (Some Abs) \<and>
   compile ''input'' = Inr (Some Input) \<and>
   compile ''dup'' = Inr (Some Dup) \<and>
   get_arguments_count (BinaryOP f) = 2 \<and> get_results_count (BinaryOP f) = 1 \<and>
   is_pure (BinaryOP f) \<and>
   get_arguments_count Abs = 1 \<and> get_results_count Abs = 1 \<and> is_pure Abs \<and>
   get_arguments_count Input = 0 \<and> get_results_count Input = 1 \<and> \<not> is_pure Input \<and>
   get_arguments_count Dup = 1 \<and> get_results_count Dup = 2 \<and> is_pure Dup"
proof -
  have "compile ''+'' = Inr (Some (BinaryOP std_plus))" by code_simp
  moreover have "compile ''-'' = Inr (Some (BinaryOP std_minus))" by code_simp
  moreover have "compile ''*'' = Inr (Some (BinaryOP std_multiplies))" by code_simp
  moreover have "compile ''/'' = Inr (Some (BinaryOP std_divides))" by code_simp
  moreover have "compile ''%'' = Inr (Some (BinaryOP std_modulus))" by code_simp
  moreover have "compile ''abs'' = Inr (Some Abs)" by code_simp
  moreover have "compile ''input'' = Inr (Some Input)" by code_simp
  moreover have "compile ''dup'' = Inr (Some Dup)" by code_simp
  ultimately show ?thesis by simp
qed

text \<open>
  In part_002 a pure statement gives the same vector, or the same fault, whatever is
  left on \<open>std::cin\<close>, and reads nothing from it.
\<close>

theorem pure_apply_ignores_cin:
  assumes "is_pure stmt"
  shows "map_sum id fst (apply_stmt stmt (vin, cin1))
           = map_sum id fst (apply_stmt stmt (vin, cin2)) \<and>
         (\<forall>out cin'. apply_stmt stmt (vin, cin1) = Inr (out, cin') \<longrightarrow> cin' = cin1)"
proof -
  from pure_apply_result [OF assms, of vin] obtain res where
    "\<And>cin. apply_stmt stmt (vin, cin) =
       (case res of Inl e \<Rightarrow> Inl e | Inr out \<Rightarrow> Inr (out, cin))"
    by blast
  then show ?thesis by (cases res) simp_all
qed

theorem pure_apply_ignores_cin_witness:
  "is_pure (Combine Dup (BinaryOP std_multiplies)) \<and>
   apply_stmt (Combine Dup (BinaryOP std_multiplies)) ([7], [1, 2]) = Inr ([49], [1, 2]) \<and>
   map_sum id fst (apply_stmt (Combine Dup (BinaryOP std_multiplies)) ([7], [1, 2])) =
   map_sum id fst (apply_stmt (Combine Dup (BinaryOP std_multiplies)) ([7], []))"
proof -
  have p: "is_pure (Combine Dup (BinaryOP std_multiplies))" by simp
  have a: "apply_stmt (Combine Dup (BinaryOP std_multiplies)) ([7], [1, 2]) = Inr ([49], [1, 2])"
    by (simp add: on_vec_def Dup_apply_def BinaryOP_apply_def)
  from p a pure_apply_ignores_cin [OF p, of "[7]" "[1, 2]" "[]"] show ?thesis by blast
qed

text \<open>
  In part_002 every statement that is not a \<open>Combine\<close> treats a vector shorter than
  its arguments the same way: it reads an empty vector.
\<close>

theorem primitive_underflow_uniform:
  assumes "\<not> is_Combine stmt" and "length vin < unat (get_arguments_count stmt)"
  shows "apply_stmt stmt (vin, cin) = Inl EmptyVector"
proof (cases stmt)
  case (Combine l r)
  with assms(1) show ?thesis by simp
next
  case (BinaryOP f)
  with assms(2) show ?thesis by (simp add: on_vec_def BinaryOP_apply_short)
next
  case Abs
  with assms(2) show ?thesis by (simp add: on_vec_def Abs_apply_def)
next
  case Dup
  with assms(2) show ?thesis by (simp add: on_vec_def Dup_apply_def)
qed (use assms(2) in simp_all)

theorem primitive_underflow_uniform_witness:
  "\<not> is_Combine Dup \<and> length ([] :: cint list) < unat (get_arguments_count Dup) \<and>
   apply_stmt Dup ([], []) = Inl EmptyVector"
proof -
  have c: "\<not> is_Combine Dup" by simp
  have k: "length ([] :: cint list) < unat (get_arguments_count Dup)" by simp
  from c k primitive_underflow_uniform [OF c k, of "[]"] show ?thesis by blast
qed

text \<open>
  \<open>compile\<close> of part_002 returns a null pointer when the string is not blank and no
  token is a number or an operator: for an unknown word, and for a single tab, which
  \<open>find_first_not_of(" ")\<close> finds and \<open>\S+\<close> skips.
\<close>

theorem compile_null_without_recognized_token:
  "compile ''foo'' = Inr None \<and> compile [CHR 0x09] = Inr None"
  by code_simp

text \<open>
  \<open>compile\<close> of part_004 returns a null pointer for the empty string and does not
  return for the string \<open>x\<close>; \<open>compile\<close> of part_003 does not return for it either.
\<close>

theorem compile_p4_null_or_no_return:
  "compile_p4 '''' = Some None \<and> compile_p4 ''x'' = None \<and> compile_p3 ''x'' = None"
proof (intro conjI)
  show "compile_p4 '''' = Some None" by code_simp
  show "compile_p4 ''x'' = None"
  proof (cases "compile_p4 ''x''")
    case None
    then show ?thesis .
  next
    case (Some y)
    then have "''x'' \<noteq> ''x''" unfolding compile_p4_def by (rule compile_loop_p4_stuck)
    then show ?thesis by simp
  qed
  show "compile_p3 ''x'' = None"
  proof (cases "compile_p3 ''x''")
    case None
    then show ?thesis .
  next
    case (Some y)
    then have "compile_loop_p3 None ''x'' = Some y" by (simp add: compile_p3_def)
    then have "''x'' \<noteq> ''x''" by (rule compile_loop_p3_stuck)
    then show ?thesis by simp
  qed
qed

text \<open>
  \<open>optimize\<close> of part_002 returns a statement that it leaves as it is.
\<close>

theorem optimize_idempotent: "optimize (optimize stmt) = optimize stmt"
proof (induction stmt)
  case (Combine l r)
  show ?case
  proof (cases "get_results_count (optimize l) < get_arguments_count (optimize r)")
    case True
    then show ?thesis by (simp add: Let_def)
  next
    case False
    show ?thesis
    proof (cases "\<exists>a b. optimize l = ConstOp a \<and> optimize r = ConstOp b")
      case True
      with False show ?thesis by (auto simp: Let_def)
    next
      case nofold: False
      with False have step: "optimize (Combine l r) = Combine (optimize l) (optimize r)"
        by (auto simp: Let_def split: Statement.splits)
      from False nofold Combine.IH
      have "optimize (Combine (optimize l) (optimize r)) = Combine (optimize l) (optimize r)"
        by (auto simp: Let_def split: Statement.splits)
      with step show ?thesis by simp
    qed
  qed
qed simp_all

text \<open>
  The scenarios of the specification and of the tests in \<open>polka.cpp\<close>, run on
  part_002.
\<close>

theorem spec_scenarios:
  "run ''2 3 +'' [] = Some (Inr [5]) \<and>
   run ''5 3 -'' [] = Some (Inr [2]) \<and>
   run ''-5 abs'' [] = Some (Inr [5]) \<and>
   run ''7 dup'' [] = Some (Inr [7, 7]) \<and>
   run ''1 2 3 + -111 - * 10 %'' [1, 2, 3] = Some (Inr [1, 2, 3, 6]) \<and>
   run ''10 3 %'' [] = Some (Inr [1]) \<and>
   run ''-10 3 %'' [] = Some (Inr [- 1]) \<and>
   run ''2147483647 1 +'' [] = Some (Inr [- 2147483648])"
  by code_simp

text \<open>
  The constructor of part_003 stores \<open>max(l.arguments, r.arguments - l.results)\<close>
  while the counts are below \<open>2 ^ 31\<close>: 2 for \<open>+ +\<close>, which \<open>apply\<close> of part_003
  can run on two elements because its second \<open>+\<close> returns a vector of one element
  unchanged.
\<close>

theorem Combine_arguments_p3_is_spec_max:
  assumes "unat (get_arguments_count_p3 l) < 2 ^ 31"
    and "unat (get_results_count_p3 l) < 2 ^ 31"
    and "unat (get_arguments_count_p3 r) < 2 ^ 31"
  shows "uint (get_arguments_count_p3 (Combine l r)) =
           max (uint (get_arguments_count_p3 l))
               (uint (get_arguments_count_p3 r) - uint (get_results_count_p3 l))"
proof -
  let ?a = "get_arguments_count_p3 l" and ?d = "get_arguments_count_p3 r - get_results_count_p3 l"
  have a: "sint ?a = int (unat ?a)" using assms(1) by (simp only: sint_as_unat if_True)
  have d: "sint ?d = int (unat (get_arguments_count_p3 r)) - int (unat (get_results_count_p3 l))"
    using assms(3,2) by (rule sint_diff_small)
  have m: "sint (std_max_int ?a ?d) = max (sint ?a) (sint ?d)"
    by (simp add: std_max_int_def word_sless_alt max_def)
  from a have "0 \<le> sint ?a" by simp
  then have "0 \<le> max (sint ?a) (sint ?d)" by (simp add: le_max_iff_disj)
  then have nonneg: "0 \<le> sint (std_max_int ?a ?d)" by (simp only: m)
  have "uint (std_max_int ?a ?d) = sint (std_max_int ?a ?d)"
  proof (cases "uint (std_max_int ?a ?d) < 2 ^ 31")
    case True
    then show ?thesis by (simp only: sint_as_uint if_True)
  next
    case False
    then have "sint (std_max_int ?a ?d) = uint (std_max_int ?a ?d) - 2 ^ 32"
      by (simp only: sint_as_uint if_False)
    moreover have "uint (std_max_int ?a ?d) < 2 ^ 32"
      using uint_lt2p [of "std_max_int ?a ?d"] by simp
    ultimately show ?thesis using nonneg by linarith
  qed
  then have "uint (get_arguments_count_p3 (Combine l r)) = max (sint ?a) (sint ?d)"
    by (simp only: get_arguments_count_p3.simps m)
  then show ?thesis unfolding a d uint_nat .
qed

theorem Combine_arguments_p3_is_spec_max_witness:
  "unat (get_arguments_count_p3 (BinaryOP std_plus)) < 2 ^ 31 \<and>
   unat (get_results_count_p3 (BinaryOP std_plus)) < 2 ^ 31 \<and>
   uint (get_arguments_count_p3 (Combine (BinaryOP std_plus) (BinaryOP std_plus))) = max 2 (2 - 1) \<and>
   apply_stmt_p3 (Combine (BinaryOP std_plus) (BinaryOP std_plus)) ([1, 2], []) = Inr ([3], [])"
proof -
  have a: "unat (get_arguments_count_p3 (BinaryOP std_plus)) < 2 ^ 31" by simp
  have r: "unat (get_results_count_p3 (BinaryOP std_plus)) < 2 ^ 31" by simp
  have p: "apply_stmt_p3 (Combine (BinaryOP std_plus) (BinaryOP std_plus)) ([1, 2], []) = Inr ([3], [])"
    by (simp add: on_vec_def BinaryOP_apply_p3_def BinaryOP_apply_def)
  from a r p Combine_arguments_p3_is_spec_max [OF a r a] show ?thesis by simp
qed

text \<open>
  The constructor of part_004 computes the same formula on \<open>unsigned\<close>: for two
  literals, \<open>0 - 1\<close> wraps and the sequence declares \<open>4294967295\<close> arguments.
\<close>

theorem Combine_arguments_p4_wraps:
  "Combine_arguments_p4 0 1 0 = 4294967295 \<and> Combine_arguments_p4 2 1 2 = 2"
  by code_simp

text \<open>
  For every statement of part_002 whose counts fit, \<open>arguments\<close> is the least length
  of a vector on which \<open>apply\<close> can return, and a vector it returns is
  \<open>results - arguments\<close> longer than its input.
\<close>

theorem arguments_are_minimum_depth:
  assumes "counts_fit stmt"
  shows "(length vin < unat (get_arguments_count stmt) \<longrightarrow>
            (\<exists>e. apply_stmt stmt (vin, cin) = Inl e)) \<and>
         (unat (get_arguments_count stmt) \<le> length vin \<longrightarrow>
            apply_stmt stmt (vin, cin) \<noteq> Inl EmptyVector \<and>
            (\<forall>out cin'. apply_stmt stmt (vin, cin) = Inr (out, cin') \<longrightarrow>
               length out + unat (get_arguments_count stmt) =
               length vin + unat (get_results_count stmt)))"
  using depth_all [OF assms, of vin cin] unfolding depth_ok_def .

theorem arguments_are_minimum_depth_witness:
  "counts_fit (Combine (Combine (ConstOp 6) Dup) (BinaryOP std_multiplies)) \<and>
   unat (get_arguments_count (Combine (Combine (ConstOp 6) Dup) (BinaryOP std_multiplies))) = 0 \<and>
   unat (get_results_count (Combine (Combine (ConstOp 6) Dup) (BinaryOP std_multiplies))) = 1 \<and>
   apply_stmt (Combine (Combine (ConstOp 6) Dup) (BinaryOP std_multiplies)) ([1], [])
     = Inr ([1, 36], []) \<and>
   counts_fit (BinaryOP std_plus) \<and>
   (\<exists>e. apply_stmt (BinaryOP std_plus) ([1], []) = Inl e)"
proof -
  let ?s = "Combine (Combine (ConstOp 6) Dup) (BinaryOP std_multiplies)"
  have f: "counts_fit ?s" by (simp add: std_max_int_def word_sless_alt)
  have a: "unat (get_arguments_count ?s) = 0" by (simp add: std_max_int_def word_sless_alt)
  have r: "unat (get_results_count ?s) = 1" by (simp add: std_max_int_def word_sless_alt)
  have v: "apply_stmt ?s ([1], []) = Inr ([1, 36], [])"
    by (simp add: on_vec_def ConstOp_apply_def Dup_apply_def BinaryOP_apply_def)
  have g: "counts_fit (BinaryOP std_plus)" by simp
  from f a r v g
    arguments_are_minimum_depth [OF f, of "[1]" "[]"]
    arguments_are_minimum_depth [OF g, of "[1]" "[]"]
  show ?thesis by simp
qed

text \<open>
  Composition in part_002 is associative: \<open>(a | b) | c\<close> and \<open>a | (b | c)\<close> declare
  the same counts and purity and have the same \<open>apply\<close>.
\<close>

theorem Combine_associative:
  assumes "counts_fit (Combine (Combine a b) c)" and "counts_fit (Combine a (Combine b c))"
  shows "get_arguments_count (Combine (Combine a b) c) = get_arguments_count (Combine a (Combine b c)) \<and>
         get_results_count (Combine (Combine a b) c) = get_results_count (Combine a (Combine b c)) \<and>
         is_pure (Combine (Combine a b) c) = is_pure (Combine a (Combine b c)) \<and>
         apply_stmt (Combine (Combine a b) c) m = apply_stmt (Combine a (Combine b c)) m"
proof -
  from assms have ab: "counts_fit (Combine a b)" and bc: "counts_fit (Combine b c)" by simp_all
  note L = Combine_counts [OF assms(1)] and R = Combine_counts [OF assms(2)]
    and AB = Combine_counts [OF ab] and BC = Combine_counts [OF bc]
  have "unat (get_arguments_count (Combine (Combine a b) c))
      = unat (get_arguments_count (Combine a (Combine b c)))"
    unfolding L(1) R(1) AB BC by (rule compose_counts_assoc(1))
  then have args: "get_arguments_count (Combine (Combine a b) c)
      = get_arguments_count (Combine a (Combine b c))"
    by (simp only: word_unat_eq_iff)
  have "unat (get_results_count (Combine (Combine a b) c))
      = unat (get_results_count (Combine a (Combine b c)))"
    unfolding L(2) R(2) AB BC by (rule compose_counts_assoc(2))
  then have res: "get_results_count (Combine (Combine a b) c)
      = get_results_count (Combine a (Combine b c))"
    by (simp only: word_unat_eq_iff)
  have app: "apply_stmt (Combine (Combine a b) c) m = apply_stmt (Combine a (Combine b c)) m"
    by (simp split: sum.split)
  from args res app show ?thesis by auto
qed

theorem Combine_associative_witness:
  "counts_fit (Combine (Combine (ConstOp 1) (BinaryOP std_plus)) Dup) \<and>
   counts_fit (Combine (ConstOp 1) (Combine (BinaryOP std_plus) Dup)) \<and>
   get_arguments_count (Combine (Combine (ConstOp 1) (BinaryOP std_plus)) Dup) = 1 \<and>
   get_arguments_count (Combine (ConstOp 1) (Combine (BinaryOP std_plus) Dup)) = 1 \<and>
   get_results_count (Combine (ConstOp 1) (Combine (BinaryOP std_plus) Dup)) = 2 \<and>
   apply_stmt (Combine (Combine (ConstOp 1) (BinaryOP std_plus)) Dup) ([4], []) =
   apply_stmt (Combine (ConstOp 1) (Combine (BinaryOP std_plus) Dup)) ([4], [])"
proof -
  have f: "counts_fit (Combine (Combine (ConstOp 1) (BinaryOP std_plus)) Dup)"
    by (simp add: std_max_int_def word_sless_alt)
  have g: "counts_fit (Combine (ConstOp 1) (Combine (BinaryOP std_plus) Dup))"
    by (simp add: std_max_int_def word_sless_alt)
  have a: "get_arguments_count (Combine (ConstOp 1) (Combine (BinaryOP std_plus) Dup)) = 1"
    by (simp add: std_max_int_def word_sless_alt)
  have r: "get_results_count (Combine (ConstOp 1) (Combine (BinaryOP std_plus) Dup)) = 2"
    by (simp add: std_max_int_def word_sless_alt)
  from f g a r Combine_associative [OF f g, of "([4], [])"] show ?thesis by simp
qed

end
